theory Spec2Isabelle
  imports Main "HOL-Library.Multiset"
begin

section \<open>Tree model (models.py)\<close>

text \<open>
  \<^verbatim>\<open>Node\<close> is a dataclass with a name and an ordered list of child nodes; its
  \<^verbatim>\<open>__eq__\<close> is structural, which is HOL equality on the datatype.
\<close>

datatype node = Node (name: string) (children: "node list")

section \<open>Structural comparator (comparator.py)\<close>

datatype Status = MATCH | MISMATCH | TS_PARSE_ERROR | PSI_PARSE_ERROR

datatype DiffKind = NAME_MISMATCH | MISSING_CHILD | EXTRA_CHILD | CHILD_COUNT_MISMATCH

record Difference =
  path :: string
  expected :: string
  actual :: string
  kind :: DiffKind

record CompareResult =
  status :: Status
  differences :: "Difference list"

text \<open>Python's \<^verbatim>\<open>str\<close> on a non-negative integer: its decimal digits.\<close>

definition digit_char :: "nat \<Rightarrow> char" where
  "digit_char d = ''0123456789'' ! d"

fun str_nat :: "nat \<Rightarrow> string" where
  "str_nat n = (if n < 10 then [digit_char n] else str_nat (n div 10) @ [digit_char (n mod 10)])"

declare str_nat.simps [simp del]

text \<open>
  \<^verbatim>\<open>_compare_nodes\<close> appends to the accumulator \<^verbatim>\<open>differences\<close>; the model returns
  the differences this call appends, in the order it appends them. The three loops of
  the source run over \<^verbatim>\<open>range(min_count)\<close>, \<^verbatim>\<open>range(min_count, len(ts_children))\<close>
  and \<^verbatim>\<open>range(min_count, len(psi_children))\<close>.
\<close>

function compare_nodes :: "node \<Rightarrow> node \<Rightarrow> string \<Rightarrow> Difference list" where
  "compare_nodes ts_node psi_node pth =
     (let current_path = (if pth \<noteq> [] then pth @ '' > '' @ name psi_node else name psi_node);
          name_diff =
            (if name ts_node \<noteq> name psi_node
             then [\<lparr>path = current_path, expected = name psi_node,
                    actual = name ts_node, kind = NAME_MISMATCH\<rparr>]
             else []);
          ts_children = children ts_node;
          psi_children = children psi_node;
          count_diff =
            (if length ts_children \<noteq> length psi_children
             then [\<lparr>path = current_path, expected = str_nat (length psi_children),
                    actual = str_nat (length ts_children), kind = CHILD_COUNT_MISMATCH\<rparr>]
             else []);
          min_count = min (length ts_children) (length psi_children);
          pairwise =
            concat (map (\<lambda>i. compare_nodes (ts_children ! i) (psi_children ! i) current_path)
                        [0..<min_count]);
          extra =
            map (\<lambda>i. \<lparr>path = current_path @ '' > [child '' @ str_nat i @ '']'',
                       expected = ''(absent)'', actual = name (ts_children ! i),
                       kind = EXTRA_CHILD\<rparr>)
                [min_count..<length ts_children];
          missing =
            map (\<lambda>i. \<lparr>path = current_path @ '' > [child '' @ str_nat i @ '']'',
                       expected = name (psi_children ! i), actual = ''(absent)'',
                       kind = MISSING_CHILD\<rparr>)
                [min_count..<length psi_children]
      in name_diff @ count_diff @ pairwise @ extra @ missing)"
  by pat_completeness auto

termination
proof (relation "measure (\<lambda>(t, p, s). size t)")
  show "wf (measure (\<lambda>(t, p, s). size t))" by simp
next
  fix ts_node psi_node :: node and pth x xa xb xc xd xe :: "char list" and i :: nat
  fix tc pc :: "node list" and cd :: "Difference list" and mc :: nat
  assume "tc = children ts_node" "pc = children psi_node"
    "mc = min (length tc) (length pc)" "i \<in> set [0..<mc]"
  then have "tc ! i \<in> set (children ts_node)" by simp
  then have "size (tc ! i) < size ts_node"
    by (cases ts_node) (auto simp: less_Suc_eq_le size_list_estimation')
  then show "((tc ! i, pc ! i, x), ts_node, psi_node, pth) \<in> measure (\<lambda>(t, p, s). size t)"
    by simp
qed

declare compare_nodes.simps [simp del]

definition compare_trees :: "node option \<Rightarrow> node option \<Rightarrow> CompareResult" where
  "compare_trees ts_tree psi_tree =
     (case ts_tree of
        None \<Rightarrow> \<lparr>status = TS_PARSE_ERROR, differences = []\<rparr>
      | Some t \<Rightarrow>
          (case psi_tree of
             None \<Rightarrow> \<lparr>status = PSI_PARSE_ERROR, differences = []\<rparr>
           | Some p \<Rightarrow>
               (let diffs = compare_nodes t p []
                in if diffs \<noteq> [] then \<lparr>status = MISMATCH, differences = diffs\<rparr>
                   else \<lparr>status = MATCH, differences = []\<rparr>)))"

section \<open>Correspondence tables (mapping.py)\<close>

text \<open>
  The four tables are module constants. A dict is an association list in the order of
  the source (no key occurs twice), a set is the list of its elements.
\<close>

definition TS_TO_PSI :: "(string \<times> string option) list" where
  "TS_TO_PSI =
    [(''source_file'', Some ''KtFile''), (''package_header'', Some ''PACKAGE_DIRECTIVE''),
     (''import_list'', Some ''IMPORT_LIST''), (''import_header'', Some ''IMPORT_DIRECTIVE''),
     (''import_alias'', Some ''IMPORT_ALIAS''), (''wildcard_import'', None),
     (''class_declaration'', Some ''CLASS''), (''class_body'', Some ''CLASS_BODY''),
     (''class_parameter'', Some ''VALUE_PARAMETER''),
     (''companion_object'', Some ''OBJECT_DECLARATION''),
     (''object_declaration'', Some ''OBJECT_DECLARATION''),
     (''object_literal'', Some ''OBJECT_LITERAL''), (''enum_class_body'', Some ''CLASS_BODY''),
     (''enum_entry'', Some ''ENUM_ENTRY''), (''type_alias'', Some ''TYPEALIAS''),
     (''primary_constructor'', Some ''PRIMARY_CONSTRUCTOR''),
     (''secondary_constructor'', Some ''SECONDARY_CONSTRUCTOR''),
     (''constructor_delegation_call'', Some ''CONSTRUCTOR_DELEGATION_CALL''),
     (''constructor_invocation'', None), (''function_declaration'', Some ''FUN''),
     (''function_body'', Some ''BLOCK''),
     (''function_value_parameters'', Some ''VALUE_PARAMETER_LIST''),
     (''parameter'', Some ''VALUE_PARAMETER''),
     (''parameter_with_optional_type'', Some ''VALUE_PARAMETER''),
     (''getter'', Some ''PROPERTY_ACCESSOR''), (''setter'', Some ''PROPERTY_ACCESSOR''),
     (''anonymous_function'', Some ''FUN''), (''property_declaration'', Some ''PROPERTY''),
     (''property_delegate'', Some ''PROPERTY_DELEGATE''),
     (''type_parameters'', Some ''TYPE_PARAMETER_LIST''),
     (''type_parameter'', Some ''TYPE_PARAMETER''),
     (''type_arguments'', Some ''TYPE_ARGUMENT_LIST''),
     (''type_projection'', Some ''TYPE_PROJECTION''), (''user_type'', Some ''USER_TYPE''),
     (''function_type'', Some ''FUNCTION_TYPE''),
     (''function_type_parameters'', Some ''VALUE_PARAMETER_LIST''),
     (''nullable_type'', Some ''NULLABLE_TYPE''), (''not_nullable_type'', None),
     (''parenthesized_type'', Some ''PARENTHESIZED''), (''parenthesized_user_type'', None),
     (''type_constraints'', Some ''TYPE_CONSTRAINT_LIST''),
     (''type_constraint'', Some ''TYPE_CONSTRAINT''),
     (''receiver_type'', Some ''FUNCTION_TYPE_RECEIVER''), (''delegation_specifier'', None),
     (''explicit_delegation'', Some ''DELEGATED_SUPER_TYPE_ENTRY''),
     (''type_identifier'', None), (''simple_identifier'', None), (''identifier'', None),
     (''modifiers'', Some ''MODIFIER_LIST''), (''class_modifier'', None),
     (''member_modifier'', None), (''visibility_modifier'', None),
     (''function_modifier'', None), (''property_modifier'', None),
     (''inheritance_modifier'', None), (''parameter_modifier'', None),
     (''parameter_modifiers'', None), (''platform_modifier'', None),
     (''reification_modifier'', None), (''variance_modifier'', None),
     (''type_modifiers'', None), (''type_parameter_modifiers'', None),
     (''type_projection_modifiers'', None), (''annotation'', Some ''ANNOTATION_ENTRY''),
     (''file_annotation'', Some ''FILE_ANNOTATION_LIST''),
     (''use_site_target'', Some ''ANNOTATION_TARGET''),
     (''call_expression'', Some ''CALL_EXPRESSION''), (''call_suffix'', None),
     (''navigation_expression'', Some ''DOT_QUALIFIED_EXPRESSION''),
     (''navigation_suffix'', None),
     (''indexing_expression'', Some ''ARRAY_ACCESS_EXPRESSION''),
     (''indexing_suffix'', Some ''INDICES''),
     (''value_arguments'', Some ''VALUE_ARGUMENT_LIST''),
     (''value_argument'', Some ''VALUE_ARGUMENT''), (''spread_expression'', None),
     (''parenthesized_expression'', Some ''PARENTHESIZED''), (''if_expression'', Some ''IF''),
     (''when_expression'', Some ''WHEN''), (''when_subject'', None),
     (''when_entry'', Some ''WHEN_ENTRY''), (''when_condition'', None),
     (''try_expression'', Some ''TRY''), (''catch_block'', Some ''CATCH''),
     (''finally_block'', Some ''FINALLY''), (''jump_expression'', None),
     (''callable_reference'', Some ''CALLABLE_REFERENCE_EXPRESSION''),
     (''collection_literal'', Some ''COLLECTION_LITERAL_EXPRESSION''),
     (''this_expression'', Some ''THIS_EXPRESSION''),
     (''super_expression'', Some ''SUPER_EXPRESSION''),
     (''directly_assignable_expression'', None), (''assignment'', None),
     (''additive_expression'', Some ''BINARY_EXPRESSION''),
     (''multiplicative_expression'', Some ''BINARY_EXPRESSION''),
     (''comparison_expression'', Some ''BINARY_EXPRESSION''),
     (''equality_expression'', Some ''BINARY_EXPRESSION''),
     (''conjunction_expression'', Some ''BINARY_EXPRESSION''),
     (''disjunction_expression'', Some ''BINARY_EXPRESSION''),
     (''elvis_expression'', Some ''BINARY_EXPRESSION''),
     (''range_expression'', Some ''BINARY_EXPRESSION''),
     (''infix_expression'', Some ''BINARY_EXPRESSION''),
     (''as_expression'', Some ''BINARY_WITH_TYPE''),
     (''check_expression'', Some ''IS_EXPRESSION''),
     (''prefix_expression'', Some ''PREFIX_EXPRESSION''),
     (''postfix_expression'', Some ''POSTFIX_EXPRESSION''), (''for_statement'', Some ''FOR''),
     (''while_statement'', Some ''WHILE''), (''do_while_statement'', Some ''DO_WHILE''),
     (''control_structure_body'', Some ''BLOCK''),
     (''range_test'', Some ''WHEN_CONDITION_IN_RANGE''),
     (''type_test'', Some ''WHEN_CONDITION_IS_PATTERN''),
     (''lambda_literal'', Some ''FUNCTION_LITERAL''),
     (''lambda_parameters'', Some ''VALUE_PARAMETER_LIST''), (''annotated_lambda'', None),
     (''statements'', None),
     (''multi_variable_declaration'', Some ''DESTRUCTURING_DECLARATION''),
     (''variable_declaration'', None), (''binding_pattern_kind'', None),
     (''string_literal'', Some ''STRING_TEMPLATE''),
     (''string_content'', Some ''LITERAL_STRING_TEMPLATE_ENTRY''),
     (''interpolated_expression'', Some ''LONG_STRING_TEMPLATE_ENTRY''),
     (''interpolated_identifier'', Some ''SHORT_STRING_TEMPLATE_ENTRY''),
     (''character_literal'', Some ''CHARACTER_CONSTANT''),
     (''character_escape_seq'', Some ''ESCAPE_STRING_TEMPLATE_ENTRY''),
     (''integer_literal'', Some ''INTEGER_CONSTANT''),
     (''real_literal'', Some ''FLOAT_CONSTANT''), (''long_literal'', None),
     (''hex_literal'', Some ''INTEGER_CONSTANT''),
     (''bin_literal'', Some ''INTEGER_CONSTANT''),
     (''unsigned_literal'', Some ''INTEGER_CONSTANT''),
     (''boolean_literal'', Some ''BOOLEAN_CONSTANT''), (''null_literal'', Some ''NULL''),
     (''label'', Some ''LABEL''), (''line_comment'', None), (''multiline_comment'', None),
     (''anonymous_initializer'', Some ''CLASS_INITIALIZER''), (''shebang_line'', None)]"

definition SKIP_TS_NODES :: "string list" where
  "SKIP_TS_NODES =
    [''simple_identifier'', ''type_identifier'', ''identifier'', ''line_comment'',
     ''multiline_comment'', ''class_modifier'', ''member_modifier'', ''visibility_modifier'',
     ''function_modifier'', ''property_modifier'', ''inheritance_modifier'',
     ''parameter_modifier'', ''parameter_modifiers'', ''platform_modifier'',
     ''reification_modifier'', ''variance_modifier'', ''type_modifiers'',
     ''type_parameter_modifiers'', ''type_projection_modifiers'', ''call_suffix'',
     ''navigation_suffix'', ''when_subject'', ''directly_assignable_expression'',
     ''binding_pattern_kind'', ''wildcard_import'', ''shebang_line'', ''statements'',
     ''annotated_lambda'', ''constructor_invocation'', ''delegation_specifier'',
     ''when_condition'', ''jump_expression'', ''variable_declaration'', ''assignment'',
     ''not_nullable_type'', ''parenthesized_user_type'', ''spread_expression'', ''long_literal'']"

definition SKIP_PSI_NODES :: "string list" where
  "SKIP_PSI_NODES =
    [''TYPE_REFERENCE'', ''OPERATION_REFERENCE'', ''REFERENCE_EXPRESSION'',
     ''SUPER_TYPE_LIST'', ''SUPER_TYPE_CALL_ENTRY'', ''SUPER_TYPE_ENTRY'',
     ''CONSTRUCTOR_CALLEE'', ''CONSTRUCTOR_DELEGATION_REFERENCE'', ''BODY'', ''THEN'',
     ''ELSE'', ''LOOP_RANGE'', ''CONDITION'', ''RETURN'', ''THROW'', ''BREAK'', ''CONTINUE'',
     ''LAMBDA_EXPRESSION'', ''LAMBDA_ARGUMENT'', ''LABEL_QUALIFIER'', ''VALUE_ARGUMENT_NAME'',
     ''ANNOTATED_EXPRESSION'', ''ANNOTATION'', ''ENUM_ENTRY_SUPERCLASS_REFERENCE_EXPRESSION'',
     ''INITIALIZER_LIST'', ''LABELED_EXPRESSION'', ''KDOC_SECTION'',
     ''CLASS_LITERAL_EXPRESSION'', ''CONTEXT_RECEIVER'', ''CONTEXT_PARAMETER_LIST'',
     ''INTERSECTION_TYPE'', ''DYNAMIC_TYPE'']"

definition WRAPPER_COLLAPSE :: "(string \<times> string) list" where
  "WRAPPER_COLLAPSE =
    [(''TYPE_REFERENCE'', ''USER_TYPE''), (''SUPER_TYPE_CALL_ENTRY'', ''CONSTRUCTOR_CALLEE''),
     (''CONSTRUCTOR_CALLEE'', ''TYPE_REFERENCE''),
     (''LAMBDA_EXPRESSION'', ''FUNCTION_LITERAL''), (''ANNOTATED_EXPRESSION'', ''*''),
     (''LABELED_EXPRESSION'', ''*'')]"

section \<open>Normalizer (normalizer.py)\<close>

text \<open>
  \<^verbatim>\<open>TS_TO_PSI.get(name)\<close> is None both for a name that is not a key and for a key whose
  value is None.
\<close>

definition ts_to_psi_get :: "string \<Rightarrow> string option" where
  "ts_to_psi_get nm = (case map_of TS_TO_PSI nm of None \<Rightarrow> None | Some v \<Rightarrow> v)"

subsection \<open>Tree-sitter side\<close>

text \<open>
  \<^verbatim>\<open>_nest_property_accessors\<close>: the loop body, on the list \<^verbatim>\<open>result\<close> built so far, and
  the function.
\<close>

definition nest_step :: "node list \<Rightarrow> node \<Rightarrow> node list" where
  "nest_step result child =
     (if name child = ''PROPERTY_ACCESSOR'' \<and> result \<noteq> [] \<and> name (last result) = ''PROPERTY''
      then butlast result @ [Node ''PROPERTY'' (children (last result) @ [child])]
      else result @ [child])"

definition nest_property_accessors :: "node list \<Rightarrow> node list" where
  "nest_property_accessors cs =
     (if \<not> list_ex (\<lambda>c. name c = ''PROPERTY_ACCESSOR'') cs then cs
      else foldl nest_step [] cs)"

text \<open>
  \<^verbatim>\<open>_inject_value_parameter_list\<close>: the loop state is the pair of \<^verbatim>\<open>result\<close> and
  \<^verbatim>\<open>param_group\<close>.
\<close>

definition inject_step :: "node list \<times> node list \<Rightarrow> node \<Rightarrow> node list \<times> node list" where
  "inject_step st child =
     (case st of (result, param_group) \<Rightarrow>
        if name child = ''VALUE_PARAMETER'' then (result, param_group @ [child])
        else if param_group \<noteq> []
             then (result @ [Node ''VALUE_PARAMETER_LIST'' param_group] @ [child], [])
             else (result @ [child], param_group))"

definition inject_value_parameter_list :: "node list \<Rightarrow> node list" where
  "inject_value_parameter_list cs =
     (if \<not> list_ex (\<lambda>c. name c = ''VALUE_PARAMETER'') cs then cs
      else (case foldl inject_step ([], []) cs of (result, param_group) \<Rightarrow>
              if param_group \<noteq> [] then result @ [Node ''VALUE_PARAMETER_LIST'' param_group]
              else result))"

definition unwrap_receiver_type :: "node list \<Rightarrow> node list" where
  "unwrap_receiver_type cs =
     (if \<not> list_ex (\<lambda>c. name c = ''FUNCTION_TYPE_RECEIVER'') cs then cs
      else concat (map (\<lambda>child. if name child = ''FUNCTION_TYPE_RECEIVER'' then children child
                                 else [child]) cs))"

fun flatten_call_expression :: "node list \<Rightarrow> node list" where
  "flatten_call_expression [] = []"
| "flatten_call_expression (Node nm inner_children # rest) =
     (if nm \<noteq> ''CALL_EXPRESSION'' then Node nm inner_children # rest
      else flatten_call_expression inner_children @ rest)"

definition wrap_bare_types_in_value_parameter :: "node list \<Rightarrow> node list" where
  "wrap_bare_types_in_value_parameter cs =
     (let type_names = [''USER_TYPE'', ''NULLABLE_TYPE'', ''FUNCTION_TYPE'', ''PARENTHESIZED'']
      in if \<not> list_ex (\<lambda>c. name c \<in> set type_names \<and> name c \<noteq> ''VALUE_PARAMETER'') cs then cs
         else if list_ex (\<lambda>c. name c = ''VALUE_PARAMETER'') cs then cs
         else map (\<lambda>child. if name child \<in> set type_names
                            then Node ''VALUE_PARAMETER'' [child] else child) cs)"

text \<open>
  \<^verbatim>\<open>_normalize_ts_node\<close> and \<^verbatim>\<open>_normalize_ts_child\<close>. A \<^verbatim>\<open>return\<close> in the middle of the
  source function is the \<open>then\<close> branch of an \<open>if\<close> whose \<open>else\<close> branch is the rest of
  the function; a variable the source assigns again gets a new name with a digit.
  \<^verbatim>\<open>if mapped:\<close> is true for a string that is neither None nor empty.
\<close>

function normalize_ts_node :: "node \<Rightarrow> node option"
  and normalize_ts_child :: "node \<Rightarrow> node list" where
  "normalize_ts_node node =
     (let normalized_children =
            nest_property_accessors (concat (map normalize_ts_child (children node)))
      in
      if name node \<in> set SKIP_TS_NODES then
        (if length normalized_children = 1 then Some (hd normalized_children)
         else if length normalized_children > 1 then
           (case ts_to_psi_get (name node) of
              None \<Rightarrow> None
            | Some mapped \<Rightarrow>
                if mapped \<noteq> [] then Some (Node mapped normalized_children) else None)
         else None)
      else
        (case ts_to_psi_get (name node) of
           None \<Rightarrow>
             (if length normalized_children = 1 then Some (hd normalized_children)
              else if length normalized_children > 1
                   then Some (Node (name node) normalized_children)
                   else None)
         | Some mapped_name0 \<Rightarrow>
             (let mapped_name =
                    (if name node = ''check_expression''
                     then (if list_ex (\<lambda>c. name c \<in> set [''user_type'', ''nullable_type'',
                                  ''parenthesized_type'', ''function_type'', ''type_identifier''])
                                (children node)
                           then ''IS_EXPRESSION'' else ''BINARY_EXPRESSION'')
                     else mapped_name0);
                  has_statements = list_ex (\<lambda>c. name c = ''statements'') (children node);
                  has_non_comment_children =
                    list_ex (\<lambda>c. name c \<notin> set [''statements'', ''line_comment'',
                                                   ''multiline_comment'']) (children node)
              in
              if mapped_name = ''BLOCK'' \<and> name node = ''control_structure_body''
                 \<and> \<not> has_statements \<and> has_non_comment_children
                 \<and> length normalized_children = 1
              then Some (hd normalized_children)
              else if mapped_name = ''BLOCK'' \<and> name node = ''control_structure_body''
                 \<and> \<not> has_statements \<and> has_non_comment_children
                 \<and> normalized_children = []
              then None
              else if mapped_name = ''DOT_QUALIFIED_EXPRESSION'' \<and> normalized_children = []
              then None
              else
                (let normalized_children1 =
                       (if mapped_name \<in> set [''PRIMARY_CONSTRUCTOR'', ''PROPERTY_ACCESSOR'']
                        then inject_value_parameter_list normalized_children
                        else normalized_children);
                     normalized_children2 =
                       (if mapped_name \<in> set [''FUN'', ''PROPERTY'']
                        then unwrap_receiver_type normalized_children1
                        else normalized_children1);
                     normalized_children3 =
                       (if mapped_name = ''CALL_EXPRESSION''
                        then flatten_call_expression normalized_children2
                        else normalized_children2);
                     normalized_children4 =
                       (if mapped_name = ''FUNCTION_LITERAL'' \<and> normalized_children3 = []
                        then [Node ''BLOCK'' []]
                        else normalized_children3);
                     normalized_children5 =
                       (if mapped_name = ''CLASS_INITIALIZER'' \<and> normalized_children4 \<noteq> []
                        then [Node ''BLOCK'' normalized_children4]
                        else normalized_children4);
                     normalized_children6 =
                       (if mapped_name = ''OBJECT_LITERAL'' \<and> normalized_children5 \<noteq> []
                        then [Node ''OBJECT_DECLARATION'' normalized_children5]
                        else normalized_children5);
                     normalized_children7 =
                       (if mapped_name = ''VALUE_PARAMETER_LIST''
                        then wrap_bare_types_in_value_parameter normalized_children6
                        else normalized_children6)
                 in
                 if mapped_name = ''BLOCK'' \<and> name node = ''function_body''
                    \<and> \<not> has_statements \<and> has_non_comment_children
                    \<and> length normalized_children7 = 1
                 then Some (hd normalized_children7)
                 else if mapped_name = ''BLOCK'' \<and> name node = ''function_body''
                    \<and> \<not> has_statements \<and> has_non_comment_children
                    \<and> normalized_children7 = []
                 then None
                 else if mapped_name = ''MODIFIER_LIST'' \<and> normalized_children7 = []
                 then None
                 else if mapped_name = ''VALUE_PARAMETER_LIST'' \<and> normalized_children7 = []
                 then None
                 else Some (Node mapped_name normalized_children7)))))"
| "normalize_ts_child node =
     (case normalize_ts_node node of
        Some result \<Rightarrow> [result]
      | None \<Rightarrow> concat (map normalize_ts_child (children node)))"
  by pat_completeness auto

termination
proof (relation "measure (\<lambda>x. case x of Inl n \<Rightarrow> 2 * size n | Inr n \<Rightarrow> 2 * size n + 1)")
  show "wf (measure (\<lambda>x. case x of Inl n \<Rightarrow> 2 * size n | Inr n \<Rightarrow> 2 * size n + 1))"
    by simp
next
  fix node c :: node
  assume "c \<in> set (children node)"
  then have "size c < size node"
    by (cases node) (auto simp: less_Suc_eq_le size_list_estimation')
  then show "(Inr c, Inl node)
      \<in> measure (\<lambda>x. case x of Inl n \<Rightarrow> 2 * size n | Inr n \<Rightarrow> 2 * size n + 1)"
    by simp
next
  fix node :: node
  show "(Inl node, Inr node)
      \<in> measure (\<lambda>x. case x of Inl n \<Rightarrow> 2 * size n | Inr n \<Rightarrow> 2 * size n + 1)"
    by simp
next
  fix node c :: node
  assume "c \<in> set (children node)"
  then have "size c < size node"
    by (cases node) (auto simp: less_Suc_eq_le size_list_estimation')
  then show "(Inr c, Inr node)
      \<in> measure (\<lambda>x. case x of Inl n \<Rightarrow> 2 * size n | Inr n \<Rightarrow> 2 * size n + 1)"
    by simp
qed

declare normalize_ts_node.simps [simp del] normalize_ts_child.simps [simp del]

definition normalize_ts :: "node \<Rightarrow> node option" where
  "normalize_ts node = normalize_ts_node node"

subsection \<open>PSI side\<close>

text \<open>
  The first child that satisfies a test, with the children before it and after it. In
  \<^verbatim>\<open>_normalize_psi_node\<close> the list \<^verbatim>\<open>other_children\<close> holds every normalized child that is
  not the target child (\<^verbatim>\<open>c is not child\<close>, object identity); each normalized child is
  an object of its own, so these are the children before and after the target.
\<close>

fun split_at_first ::
  "(node \<Rightarrow> bool) \<Rightarrow> node list \<Rightarrow> (node list \<times> node \<times> node list) option" where
  "split_at_first P [] = None"
| "split_at_first P (c # cs) =
     (if P c then Some ([], c, cs)
      else (case split_at_first P cs of
              None \<Rightarrow> None
            | Some (before, child, after) \<Rightarrow> Some (c # before, child, after)))"

function normalize_psi_node :: "node \<Rightarrow> node option"
  and normalize_psi_child :: "node \<Rightarrow> node list" where
  "normalize_psi_node node =
     (let normalized_children = concat (map normalize_psi_child (children node))
      in
      if name node = ''PACKAGE_DIRECTIVE'' \<and> children node = [] then None
      else if name node = ''IMPORT_LIST'' \<and> normalized_children = [] then None
      else if name node = ''MODIFIER_LIST'' \<and> normalized_children = [] then None
      else if name node = ''VALUE_PARAMETER_LIST'' \<and> normalized_children = [] then None
      else if name node = ''DOT_QUALIFIED_EXPRESSION''
              \<and> filter (\<lambda>c. name c \<noteq> ''DOT_QUALIFIED_EXPRESSION'') normalized_children = []
      then None
      else if name node \<in> set SKIP_PSI_NODES then
        (if length normalized_children = 1 then Some (hd normalized_children)
         else if length normalized_children > 1 then None
         else None)
      else
        (case map_of WRAPPER_COLLAPSE (name node) of
           None \<Rightarrow> Some (Node (name node) normalized_children)
         | Some target \<Rightarrow>
             if target = ''*'' \<and> length normalized_children = 1
             then Some (hd normalized_children)
             else if target \<noteq> ''*'' then
               (case split_at_first (\<lambda>c. name c = target) normalized_children of
                  Some (before, child, after) \<Rightarrow>
                    (let other_children = before @ after
                     in if other_children \<noteq> []
                        then Some (Node (name child) (children child @ other_children))
                        else Some child)
                | None \<Rightarrow> Some (Node (name node) normalized_children))
             else Some (Node (name node) normalized_children)))"
| "normalize_psi_child node =
     (case normalize_psi_node node of
        Some result \<Rightarrow> [result]
      | None \<Rightarrow> concat (map normalize_psi_child (children node)))"
  by pat_completeness auto

termination
proof (relation "measure (\<lambda>x. case x of Inl n \<Rightarrow> 2 * size n | Inr n \<Rightarrow> 2 * size n + 1)")
  show "wf (measure (\<lambda>x. case x of Inl n \<Rightarrow> 2 * size n | Inr n \<Rightarrow> 2 * size n + 1))"
    by simp
next
  fix node c :: node
  assume "c \<in> set (children node)"
  then have "size c < size node"
    by (cases node) (auto simp: less_Suc_eq_le size_list_estimation')
  then show "(Inr c, Inl node)
      \<in> measure (\<lambda>x. case x of Inl n \<Rightarrow> 2 * size n | Inr n \<Rightarrow> 2 * size n + 1)"
    by simp
next
  fix node :: node
  show "(Inl node, Inr node)
      \<in> measure (\<lambda>x. case x of Inl n \<Rightarrow> 2 * size n | Inr n \<Rightarrow> 2 * size n + 1)"
    by simp
next
  fix node c :: node
  assume "c \<in> set (children node)"
  then have "size c < size node"
    by (cases node) (auto simp: less_Suc_eq_le size_list_estimation')
  then show "(Inr c, Inr node)
      \<in> measure (\<lambda>x. case x of Inl n \<Rightarrow> 2 * size n | Inr n \<Rightarrow> 2 * size n + 1)"
    by simp
qed

declare normalize_psi_node.simps [simp del] normalize_psi_child.simps [simp del]

definition normalize_psi :: "node \<Rightarrow> node option" where
  "normalize_psi node = normalize_psi_node node"

subsection \<open>The normalized children of a node\<close>

text \<open>
  The value of the variable \<^verbatim>\<open>normalized_children\<close> of \<^verbatim>\<open>_normalize_ts_node\<close> where the
  skip set is tested (after \<^verbatim>\<open>_nest_property_accessors\<close>), and of \<^verbatim>\<open>_normalize_psi_node\<close>.
  The claims call them the normalized children of the node.
\<close>

definition ts_normalized_children :: "node \<Rightarrow> node list" where
  "ts_normalized_children node =
     nest_property_accessors (concat (map normalize_ts_child (children node)))"

definition psi_normalized_children :: "node \<Rightarrow> node list" where
  "psi_normalized_children node = concat (map normalize_psi_child (children node))"

text \<open>A node and all the nodes below it.\<close>

fun subnodes :: "node \<Rightarrow> node list" where
  "subnodes (Node nm cs) = Node nm cs # concat (map subnodes cs)"

text \<open>
  The measure that decreases along the calls of the two mutually recursive functions of
  each normalizer: \<open>Inl n\<close> stands for a call of the node function on \<open>n\<close>, \<open>Inr n\<close> for a
  call of the child function on \<open>n\<close>.
\<close>

definition call_measure :: "node + node \<Rightarrow> nat" where
  "call_measure x = (case x of Inl n \<Rightarrow> 2 * size n | Inr n \<Rightarrow> 2 * size n + 1)"

section \<open>Positions in a pair of trees\<close>

text \<open>
  The claims about the comparator speak of "corresponding positions" of the two trees
  and of "the path" of a position. A position is the list of child indices leading
  from the root to a node; it is a common position when it exists in both trees. The
  path of a position is the breadcrumb of the names of the reference tree along it.
  These notions are defined on the trees alone, without the comparator.
\<close>

definition join_path :: "string \<Rightarrow> string \<Rightarrow> string" where
  "join_path p nm = (if p \<noteq> [] then p @ '' > '' @ nm else nm)"

fun sub_at :: "node \<Rightarrow> nat list \<Rightarrow> node option" where
  "sub_at t [] = Some t"
| "sub_at t (i # is) = (if i < length (children t) then sub_at (children t ! i) is else None)"

fun path_at :: "node \<Rightarrow> nat list \<Rightarrow> string \<Rightarrow> string" where
  "path_at r [] p = join_path p (name r)"
| "path_at r (i # is) p =
     (if i < length (children r) then path_at (children r ! i) is (join_path p (name r)) else [])"

function positions :: "node \<Rightarrow> nat list list" where
  "positions t =
     [] # concat (map (\<lambda>i. map ((#) i) (positions (children t ! i))) [0..<length (children t)])"
  by pat_completeness auto

termination
proof (relation "measure size")
  show "wf (measure size)" by simp
next
  fix t :: node and i :: nat
  assume "i \<in> set [0..<length (children t)]"
  then have "children t ! i \<in> set (children t)" by simp
  then have "size (children t ! i) < size t"
    by (cases t) (auto simp: less_Suc_eq_le size_list_estimation')
  then show "(children t ! i, t) \<in> measure size" by simp
qed

declare positions.simps [simp del]

definition in_tree :: "node \<Rightarrow> nat list \<Rightarrow> bool" where
  "in_tree t pos = (case sub_at t pos of None \<Rightarrow> False | Some _ \<Rightarrow> True)"

definition common_positions :: "node \<Rightarrow> node \<Rightarrow> nat list list" where
  "common_positions ts psi = filter (in_tree psi) (positions ts)"

definition at_pos ::
  "(node \<Rightarrow> node \<Rightarrow> string \<Rightarrow> Difference list) \<Rightarrow> node \<Rightarrow> node \<Rightarrow> string \<Rightarrow> nat list
     \<Rightarrow> Difference list" where
  "at_pos L ts psi pth pos =
     (case sub_at ts pos of
        None \<Rightarrow> []
      | Some a \<Rightarrow> (case sub_at psi pos of None \<Rightarrow> [] | Some b \<Rightarrow> L a b (path_at psi pos pth)))"

definition name_mismatch_of :: "node \<Rightarrow> node \<Rightarrow> string \<Rightarrow> Difference list" where
  "name_mismatch_of a b cp =
     (if name a \<noteq> name b
      then [\<lparr>path = cp, expected = name b, actual = name a, kind = NAME_MISMATCH\<rparr>]
      else [])"

definition count_mismatch_of :: "node \<Rightarrow> node \<Rightarrow> string \<Rightarrow> Difference list" where
  "count_mismatch_of a b cp =
     (if length (children a) \<noteq> length (children b)
      then [\<lparr>path = cp, expected = str_nat (length (children b)),
             actual = str_nat (length (children a)), kind = CHILD_COUNT_MISMATCH\<rparr>]
      else [])"

definition extra_children_of :: "node \<Rightarrow> node \<Rightarrow> string \<Rightarrow> Difference list" where
  "extra_children_of a b cp =
     map (\<lambda>i. \<lparr>path = cp @ '' > [child '' @ str_nat i @ '']'', expected = ''(absent)'',
                actual = name (children a ! i), kind = EXTRA_CHILD\<rparr>)
         [length (children b)..<length (children a)]"

definition missing_children_of :: "node \<Rightarrow> node \<Rightarrow> string \<Rightarrow> Difference list" where
  "missing_children_of a b cp =
     map (\<lambda>i. \<lparr>path = cp @ '' > [child '' @ str_nat i @ '']'', expected = name (children b ! i),
                actual = ''(absent)'', kind = MISSING_CHILD\<rparr>)
         [length (children a)..<length (children b)]"

section \<open>Properties of the comparator\<close>

lemma compare_nodes_refl: "compare_nodes t t pth = []"
proof (induction t arbitrary: pth)
  case (Node nm cs)
  have "compare_nodes (cs ! i) (cs ! i) q = []" if "i < length cs" for i q
    using Node.IH [of "cs ! i" q] that by simp
  then have "concat (map (\<lambda>i. compare_nodes (cs ! i) (cs ! i) q) [0..<length cs]) = []" for q
    by simp
  then show ?case
    by (simp add: compare_nodes.simps [of "Node nm cs"])
qed

text \<open>
  C1: comparing any tree with itself gives status MATCH and an empty list of
  differences.
\<close>

theorem compare_trees_same:
  "compare_trees (Some T) (Some T) = \<lparr>status = MATCH, differences = []\<rparr>"
  by (simp add: compare_trees_def compare_nodes_refl)

text \<open>
  C2: an absent first tree gives TS_PARSE_ERROR with no differences whatever the
  second argument is (absent or present); a present first tree with an absent second
  tree gives PSI_PARSE_ERROR.
\<close>

theorem compare_trees_absent:
  "compare_trees None psi_tree = \<lparr>status = TS_PARSE_ERROR, differences = []\<rparr>
   \<and> compare_trees None None = \<lparr>status = TS_PARSE_ERROR, differences = []\<rparr>
   \<and> compare_trees (Some t) None = \<lparr>status = PSI_PARSE_ERROR, differences = []\<rparr>"
  by (simp add: compare_trees_def)

subsection \<open>Differences by position\<close>

lemma concat_concat: "concat (concat xsss) = concat (map concat xsss)"
  by (induction xsss) simp_all

lemma concat_map_upt_cut:
  assumes "\<And>i. m \<le> i \<Longrightarrow> f i = []"
  shows "concat (map f [0..<n]) = concat (map f [0..<min n m])"
proof (cases "m \<le> n")
  case True
  then have "[0..<n] = [0..<m] @ [m..<n]"
    by (metis le_add_diff_inverse upt_add_eq_append zero_le)
  moreover have "concat (map f [m..<n]) = []"
    using assms by simp
  ultimately show ?thesis using True by (simp add: min_def)
next
  case False
  then show ?thesis by (simp add: min_def)
qed

lemma in_tree_Nil [simp]: "in_tree t []"
  by (simp add: in_tree_def)

lemma in_tree_Cons [simp]:
  "in_tree t (i # pos) \<longleftrightarrow> i < length (children t) \<and> in_tree (children t ! i) pos"
  by (simp add: in_tree_def)

lemma common_positions_unfold:
  "common_positions ts psi =
     [] # concat (map (\<lambda>i. map ((#) i) (common_positions (children ts ! i) (children psi ! i)))
                      [0..<min (length (children ts)) (length (children psi))])"
proof -
  let ?f = "\<lambda>i. filter (in_tree psi) (map ((#) i) (positions (children ts ! i)))"
  let ?g = "\<lambda>i. map ((#) i) (common_positions (children ts ! i) (children psi ! i))"
  let ?m = "min (length (children ts)) (length (children psi))"
  have f_out: "?f i = []" if "length (children psi) \<le> i" for i
    using that by (simp add: filter_empty_conv)
  have f_in: "?f i = ?g i" if "i < length (children psi)" for i
    using that by (simp add: common_positions_def filter_map comp_def)
  have "common_positions ts psi = [] # concat (map ?f [0..<length (children ts)])"
    unfolding common_positions_def
    by (subst positions.simps [of ts]) (simp add: filter_concat comp_def)
  also have "concat (map ?f [0..<length (children ts)]) = concat (map ?f [0..<?m])"
    by (rule concat_map_upt_cut) (rule f_out)
  also have "map ?f [0..<?m] = map ?g [0..<?m]"
    by (rule map_cong) (simp_all add: f_in)
  finally show ?thesis .
qed

lemma at_pos_Nil [simp]: "at_pos L ts psi pth [] = L ts psi (join_path pth (name psi))"
  by (simp add: at_pos_def)

lemma at_pos_Cons:
  "i < length (children ts) \<Longrightarrow> i < length (children psi) \<Longrightarrow>
   at_pos L ts psi pth (i # pos) =
   at_pos L (children ts ! i) (children psi ! i) (join_path pth (name psi)) pos"
  by (simp add: at_pos_def split: option.split)

lemma compare_nodes_parts:
  "compare_nodes ts psi pth =
     name_mismatch_of ts psi (join_path pth (name psi)) @
     count_mismatch_of ts psi (join_path pth (name psi)) @
     concat (map (\<lambda>i. compare_nodes (children ts ! i) (children psi ! i)
                        (join_path pth (name psi)))
                 [0..<min (length (children ts)) (length (children psi))]) @
     extra_children_of ts psi (join_path pth (name psi)) @
     missing_children_of ts psi (join_path pth (name psi))"
proof -
  have e: "[min (length (children ts)) (length (children psi))..<length (children ts)] =
      [length (children psi)..<length (children ts)]"
    by (simp add: min_def)
  have m: "[min (length (children ts)) (length (children psi))..<length (children psi)] =
      [length (children ts)..<length (children psi)]"
    by (simp add: min_def)
  show ?thesis
    by (subst compare_nodes.simps)
       (simp only: Let_def e m name_mismatch_of_def count_mismatch_of_def
          extra_children_of_def missing_children_of_def join_path_def)
qed

lemma kind_name_mismatch_of [simp]: "d \<in> set (name_mismatch_of a b cp) \<Longrightarrow> kind d = NAME_MISMATCH"
  by (auto simp: name_mismatch_of_def split: if_splits)

lemma kind_count_mismatch_of [simp]:
  "d \<in> set (count_mismatch_of a b cp) \<Longrightarrow> kind d = CHILD_COUNT_MISMATCH"
  by (auto simp: count_mismatch_of_def split: if_splits)

lemma kind_extra_children_of [simp]: "d \<in> set (extra_children_of a b cp) \<Longrightarrow> kind d = EXTRA_CHILD"
  by (auto simp: extra_children_of_def)

lemma kind_missing_children_of [simp]:
  "d \<in> set (missing_children_of a b cp) \<Longrightarrow> kind d = MISSING_CHILD"
  by (auto simp: missing_children_of_def)

lemma filter_kind_keep: "(\<And>d. d \<in> set ds \<Longrightarrow> kind d = k) \<Longrightarrow> filter (\<lambda>d. kind d = k) ds = ds"
  by (simp add: filter_id_conv)

lemma filter_kind_drop:
  "(\<And>d. d \<in> set ds \<Longrightarrow> kind d = k') \<Longrightarrow> k' \<noteq> k \<Longrightarrow> filter (\<lambda>d. kind d = k) ds = []"
  by (auto simp: filter_empty_conv)

lemma filter_name_mismatch_step:
  "filter (\<lambda>d. kind d = NAME_MISMATCH) (compare_nodes ts psi pth) =
     name_mismatch_of ts psi (join_path pth (name psi)) @
     concat (map (\<lambda>i. filter (\<lambda>d. kind d = NAME_MISMATCH)
                        (compare_nodes (children ts ! i) (children psi ! i)
                           (join_path pth (name psi))))
                 [0..<min (length (children ts)) (length (children psi))])"
  by (subst compare_nodes_parts)
     (simp add: filter_concat comp_def filter_kind_keep [of _ NAME_MISMATCH]
        filter_kind_drop [of _ CHILD_COUNT_MISMATCH] filter_kind_drop [of _ EXTRA_CHILD]
        filter_kind_drop [of _ MISSING_CHILD])

lemma filter_name_mismatch:
  "filter (\<lambda>d. kind d = NAME_MISMATCH) (compare_nodes ts psi pth) =
   concat (map (at_pos name_mismatch_of ts psi pth) (common_positions ts psi))"
proof (induction ts arbitrary: psi pth)
  case (Node nm cs)
  let ?t = "Node nm cs"
  let ?cp = "join_path pth (name psi)"
  let ?m = "min (length (children ?t)) (length (children psi))"
  let ?F = "\<lambda>i. filter (\<lambda>d. kind d = NAME_MISMATCH) (compare_nodes (cs ! i) (children psi ! i) ?cp)"
  let ?G = "\<lambda>i. concat (map (at_pos name_mismatch_of ?t psi pth \<circ> (#) i)
                (common_positions (cs ! i) (children psi ! i)))"
  have IH: "?F i = ?G i" if "i < ?m" for i
  proof -
    have "cs ! i \<in> set cs" using that by simp
    from Node.IH [OF this] show ?thesis
      using that by (simp add: at_pos_Cons comp_def)
  qed
  have "filter (\<lambda>d. kind d = NAME_MISMATCH) (compare_nodes ?t psi pth) =
      at_pos name_mismatch_of ?t psi pth [] @ concat (map ?F [0..<?m])"
    by (subst filter_name_mismatch_step) simp
  also have "map ?F [0..<?m] = map ?G [0..<?m]"
    by (rule map_cong) (simp_all add: IH)
  finally show ?case
    by (subst common_positions_unfold) (simp add: map_concat concat_concat comp_def)
qed


lemma mset_by_position:
  assumes step: "\<And>ts psi pth. mset (F ts psi pth) =
      mset (L ts psi (join_path pth (name psi))) +
      (\<Sum>i\<leftarrow>[0..<min (length (children ts)) (length (children psi))].
          mset (F (children ts ! i) (children psi ! i) (join_path pth (name psi))))"
  shows "mset (F ts psi pth) = mset (concat (map (at_pos L ts psi pth) (common_positions ts psi)))"
proof (induction ts arbitrary: psi pth)
  case (Node nm cs)
  let ?t = "Node nm cs"
  let ?cp = "join_path pth (name psi)"
  let ?m = "min (length (children ?t)) (length (children psi))"
  let ?F = "\<lambda>i. mset (F (cs ! i) (children psi ! i) ?cp)"
  let ?G = "\<lambda>i. mset (concat (map (at_pos L ?t psi pth \<circ> (#) i)
                (common_positions (cs ! i) (children psi ! i))))"
  have IH: "?F i = ?G i" if "i < ?m" for i
  proof -
    have "cs ! i \<in> set cs" using that by simp
    from Node.IH [OF this] show ?thesis
      using that by (simp add: at_pos_Cons comp_def)
  qed
  have "mset (F ?t psi pth) = mset (at_pos L ?t psi pth []) + sum_list (map ?F [0..<?m])"
    by (subst step) simp
  also have "map ?F [0..<?m] = map ?G [0..<?m]"
    by (rule map_cong) (simp_all add: IH)
  finally show ?case
    by (subst common_positions_unfold)
       (simp add: map_concat concat_concat mset_concat comp_def)
qed

lemma mset_filter_extra_step:
  "mset (filter (\<lambda>d. kind d = EXTRA_CHILD) (compare_nodes ts psi pth)) =
     mset (extra_children_of ts psi (join_path pth (name psi))) +
     (\<Sum>i\<leftarrow>[0..<min (length (children ts)) (length (children psi))].
        mset (filter (\<lambda>d. kind d = EXTRA_CHILD)
          (compare_nodes (children ts ! i) (children psi ! i) (join_path pth (name psi)))))"
  by (subst compare_nodes_parts)
     (simp add: filter_concat mset_concat comp_def filter_kind_keep [of _ EXTRA_CHILD]
        filter_kind_drop [of _ CHILD_COUNT_MISMATCH] filter_kind_drop [of _ NAME_MISMATCH]
        filter_kind_drop [of _ MISSING_CHILD] del: mset_filter)

lemma mset_filter_missing_step:
  "mset (filter (\<lambda>d. kind d = MISSING_CHILD) (compare_nodes ts psi pth)) =
     mset (missing_children_of ts psi (join_path pth (name psi))) +
     (\<Sum>i\<leftarrow>[0..<min (length (children ts)) (length (children psi))].
        mset (filter (\<lambda>d. kind d = MISSING_CHILD)
          (compare_nodes (children ts ! i) (children psi ! i) (join_path pth (name psi)))))"
  by (subst compare_nodes_parts)
     (simp add: filter_concat mset_concat comp_def filter_kind_keep [of _ MISSING_CHILD]
        filter_kind_drop [of _ CHILD_COUNT_MISMATCH] filter_kind_drop [of _ NAME_MISMATCH]
        filter_kind_drop [of _ EXTRA_CHILD] del: mset_filter)

lemma differences_compare_trees:
  "differences (compare_trees (Some ts) (Some psi)) = compare_nodes ts psi []"
  by (simp add: compare_trees_def Let_def)

lemmas compare_nodes_Node = compare_nodes.simps [of "Node a tc" "Node b pc" pth] for a tc b pc pth

lemma set_positions: "set (positions t) = {pos. in_tree t pos}"
proof (induction t)
  case (Node nm cs)
  have IH: "set (positions (cs ! i)) = {pos. in_tree (cs ! i) pos}" if "i < length cs" for i
    using Node.IH [of "cs ! i"] that by simp
  show ?case
  proof (rule set_eqI)
    fix pos
    show "pos \<in> set (positions (Node nm cs)) \<longleftrightarrow> pos \<in> {pos. in_tree (Node nm cs) pos}"
    proof (cases pos)
      case Nil
      then show ?thesis by (subst positions.simps) simp
    next
      case (Cons i p)
      then show ?thesis
        using IH by (subst positions.simps) auto
    qed
  qed
qed

lemma set_common_positions:
  "set (common_positions ts psi) = {pos. in_tree ts pos \<and> in_tree psi pos}"
  by (auto simp: common_positions_def set_positions)

lemma distinct_positions: "distinct (positions t)"
proof (induction t)
  case (Node nm cs)
  let ?f = "\<lambda>i. map ((#) i) (positions (cs ! i))"
  have IH: "distinct (positions (cs ! i))" if "i < length cs" for i
    using Node.IH [of "cs ! i"] that by simp
  have ne: "positions t \<noteq> []" for t
    by (subst positions.simps) simp
  have d1: "distinct (?f i)" if "i < length cs" for i
    using IH [OF that] by (simp add: distinct_map)
  have disj: "set (?f i) \<inter> set (?f j) = {}" if "i \<noteq> j" for i j
    using that by auto
  have "inj_on ?f {0..<length cs}"
  proof (rule inj_onI)
    fix i j assume "?f i = ?f j"
    then have "set (?f i) \<inter> set (?f j) = set (?f i)" by simp
    moreover have "set (?f i) \<noteq> {}" using ne by simp
    ultimately show "i = j" using disj by metis
  qed
  then have "distinct (map ?f [0..<length cs])"
    by (simp add: distinct_map)
  moreover have "distinct ys" if "ys \<in> set (map ?f [0..<length cs])" for ys
    using that d1 by auto
  moreover have "set ys \<inter> set zs = {}"
    if "ys \<in> set (map ?f [0..<length cs])" "zs \<in> set (map ?f [0..<length cs])" "ys \<noteq> zs" for ys zs
    using that disj by auto
  ultimately have "distinct (concat (map ?f [0..<length cs]))"
    by (rule distinct_concat)
  then show ?case
    by (subst positions.simps) auto
qed

lemma distinct_common_positions: "distinct (common_positions ts psi)"
  by (simp add: common_positions_def distinct_positions)

subsection \<open>Name mismatches and unmatched children\<close>

text \<open>
  C3: for every pair of present trees, the NAME_MISMATCH differences are, in order,
  exactly one for each common position at which the candidate's and the reference's
  names differ, with the position's path (built from the reference's names), expected
  the reference's name and actual the candidate's name; positions below a mismatch are
  still visited. So each such position has its difference in the result. For
  Node X [Node A] against Node X [Node B] the result is the single NAME_MISMATCH with
  path "X > B", expected "B", actual "A".
\<close>

theorem name_mismatch_per_position:
  "filter (\<lambda>d. kind d = NAME_MISMATCH) (differences (compare_trees (Some ts) (Some psi))) =
     concat (map (at_pos name_mismatch_of ts psi []) (common_positions ts psi))
   \<and> (sub_at ts pos = Some a \<and> sub_at psi pos = Some b \<and> name a \<noteq> name b \<longrightarrow>
        \<lparr>path = path_at psi pos [], expected = name b, actual = name a, kind = NAME_MISMATCH\<rparr>
          \<in> set (differences (compare_trees (Some ts) (Some psi))))
   \<and> compare_trees (Some (Node ''X'' [Node ''A'' []])) (Some (Node ''X'' [Node ''B'' []])) =
        \<lparr>status = MISMATCH, differences =
           [\<lparr>path = ''X > B'', expected = ''B'', actual = ''A'', kind = NAME_MISMATCH\<rparr>]\<rparr>"
proof (intro conjI impI)
  show eq: "filter (\<lambda>d. kind d = NAME_MISMATCH) (differences (compare_trees (Some ts) (Some psi))) =
     concat (map (at_pos name_mismatch_of ts psi []) (common_positions ts psi))"
    by (simp only: differences_compare_trees filter_name_mismatch)
  show "compare_trees (Some (Node ''X'' [Node ''A'' []])) (Some (Node ''X'' [Node ''B'' []])) =
        \<lparr>status = MISMATCH, differences =
           [\<lparr>path = ''X > B'', expected = ''B'', actual = ''A'', kind = NAME_MISMATCH\<rparr>]\<rparr>"
    by (simp add: compare_trees_def compare_nodes_Node Let_def)
  assume h: "sub_at ts pos = Some a \<and> sub_at psi pos = Some b \<and> name a \<noteq> name b"
  let ?d = "\<lparr>path = path_at psi pos [], expected = name b, actual = name a, kind = NAME_MISMATCH\<rparr>"
  from h have "pos \<in> set (common_positions ts psi)"
    by (simp add: set_common_positions in_tree_def)
  moreover from h have "?d \<in> set (at_pos name_mismatch_of ts psi [] pos)"
    by (simp add: at_pos_def name_mismatch_of_def)
  ultimately have "?d \<in> set (concat (map (at_pos name_mismatch_of ts psi []) (common_positions ts psi)))"
    by auto
  then have "?d \<in> set (filter (\<lambda>d. kind d = NAME_MISMATCH) (differences (compare_trees (Some ts) (Some psi))))"
    by (simp only: eq)
  then show "?d \<in> set (differences (compare_trees (Some ts) (Some psi)))"
    by simp
qed

theorem name_mismatch_per_position_witness:
  "sub_at (Node ''K'' [Node ''C'' [Node ''W'' []]]) [0, 0] = Some (Node ''W'' [])
   \<and> sub_at (Node ''K'' [Node ''D'' [Node ''F'' []]]) [0, 0] = Some (Node ''F'' [])
   \<and> name (Node ''W'' []) \<noteq> name (Node ''F'' [])
   \<and> \<lparr>path = ''K > D > F'', expected = ''F'', actual = ''W'', kind = NAME_MISMATCH\<rparr>
        \<in> set (differences (compare_trees (Some (Node ''K'' [Node ''C'' [Node ''W'' []]]))
                                          (Some (Node ''K'' [Node ''D'' [Node ''F'' []]]))))"
  using name_mismatch_per_position
    [where ts = "Node ''K'' [Node ''C'' [Node ''W'' []]]" and psi = "Node ''K'' [Node ''D'' [Node ''F'' []]]"
       and pos = "[0, 0]" and a = "Node ''W'' []" and b = "Node ''F'' []"]
  by (simp add: join_path_def)

text \<open>
  C4 (as the code has it): for every pair of present trees, the EXTRA_CHILD differences
  are exactly, one each, those of the candidate children with an index from the
  reference's child count on, at every common position (expected "(absent)", actual the
  child's name), and the MISSING_CHILD differences those of the reference children with
  an index from the candidate's child count on (expected the child's name, actual
  "(absent)"); the path of each is the position's path followed by " > [child i]" with
  the zero-based index i of the unmatched child. For Node X [Node A, Node B] against
  Node X [Node A] the result is a CHILD_COUNT_MISMATCH with expected "1" and actual "2",
  then an EXTRA_CHILD at path "X > [child 1]" with actual "B".
\<close>

theorem extra_missing_per_unmatched_child:
  "mset (filter (\<lambda>d. kind d = EXTRA_CHILD) (differences (compare_trees (Some ts) (Some psi)))) =
     mset (concat (map (at_pos extra_children_of ts psi []) (common_positions ts psi)))
   \<and> mset (filter (\<lambda>d. kind d = MISSING_CHILD) (differences (compare_trees (Some ts) (Some psi)))) =
     mset (concat (map (at_pos missing_children_of ts psi []) (common_positions ts psi)))
   \<and> compare_trees (Some (Node ''X'' [Node ''A'' [], Node ''B'' []]))
                   (Some (Node ''X'' [Node ''A'' []])) =
       \<lparr>status = MISMATCH, differences =
          [\<lparr>path = ''X'', expected = ''1'', actual = ''2'', kind = CHILD_COUNT_MISMATCH\<rparr>,
           \<lparr>path = ''X > [child 1]'', expected = ''(absent)'', actual = ''B'',
            kind = EXTRA_CHILD\<rparr>]\<rparr>"
proof (intro conjI)
  show "mset (filter (\<lambda>d. kind d = EXTRA_CHILD) (differences (compare_trees (Some ts) (Some psi)))) =
     mset (concat (map (at_pos extra_children_of ts psi []) (common_positions ts psi)))"
    unfolding differences_compare_trees
    by (rule mset_by_position
          [of "\<lambda>ts psi pth. filter (\<lambda>d. kind d = EXTRA_CHILD) (compare_nodes ts psi pth)"])
       (rule mset_filter_extra_step)
  show "mset (filter (\<lambda>d. kind d = MISSING_CHILD) (differences (compare_trees (Some ts) (Some psi)))) =
     mset (concat (map (at_pos missing_children_of ts psi []) (common_positions ts psi)))"
    unfolding differences_compare_trees
    by (rule mset_by_position
          [of "\<lambda>ts psi pth. filter (\<lambda>d. kind d = MISSING_CHILD) (compare_nodes ts psi pth)"])
       (rule mset_filter_missing_step)
  show "compare_trees (Some (Node ''X'' [Node ''A'' [], Node ''B'' []]))
                   (Some (Node ''X'' [Node ''A'' []])) =
       \<lparr>status = MISMATCH, differences =
          [\<lparr>path = ''X'', expected = ''1'', actual = ''2'', kind = CHILD_COUNT_MISMATCH\<rparr>,
           \<lparr>path = ''X > [child 1]'', expected = ''(absent)'', actual = ''B'',
            kind = EXTRA_CHILD\<rparr>]\<rparr>"
    by (simp add: compare_trees_def compare_nodes_Node Let_def str_nat.simps digit_char_def)
qed

lemmas positions_Node = positions.simps [of "Node a cs"] for a cs

theorem extra_missing_per_unmatched_child_witness:
  "mset (filter (\<lambda>d. kind d = MISSING_CHILD)
      (differences (compare_trees (Some (Node ''K'' [Node ''C'' []]))
                                  (Some (Node ''K'' [Node ''C'' [Node ''F'' []], Node ''P'' []]))))) =
   mset [\<lparr>path = ''K > [child 1]'', expected = ''P'', actual = ''(absent)'', kind = MISSING_CHILD\<rparr>,
         \<lparr>path = ''K > C > [child 0]'', expected = ''F'', actual = ''(absent)'',
          kind = MISSING_CHILD\<rparr>]"
proof -
  let ?ts = "Node ''K'' [Node ''C'' []]"
  let ?psi = "Node ''K'' [Node ''C'' [Node ''F'' []], Node ''P'' []]"
  have cp: "common_positions ?ts ?psi = [[], [0]]"
    by (simp add: common_positions_def positions_Node)
  have a0: "at_pos missing_children_of ?ts ?psi [] [] =
      [\<lparr>path = ''K > [child 1]'', expected = ''P'', actual = ''(absent)'', kind = MISSING_CHILD\<rparr>]"
    by (simp add: at_pos_def missing_children_of_def join_path_def str_nat.simps digit_char_def)
  have a1: "at_pos missing_children_of ?ts ?psi [] [0] =
      [\<lparr>path = ''K > C > [child 0]'', expected = ''F'', actual = ''(absent)'',
        kind = MISSING_CHILD\<rparr>]"
    by (simp add: at_pos_def missing_children_of_def join_path_def str_nat.simps digit_char_def)
  from extra_missing_per_unmatched_child [where ts = ?ts and psi = ?psi]
  have "mset (filter (\<lambda>d. kind d = MISSING_CHILD)
          (differences (compare_trees (Some ?ts) (Some ?psi)))) =
        mset (concat (map (at_pos missing_children_of ?ts ?psi []) (common_positions ?ts ?psi)))"
    by (rule conjunct2 [THEN conjunct1])
  then show ?thesis
    by (simp only: cp a0 a1 list.map concat.simps append.simps)
qed

text \<open>
  C4 as stated fails on its own example: the path of the EXTRA_CHILD difference is
  "X > [child 1]", with the separator, and no difference has the path "X[child 1]".
\<close>

theorem extra_child_path_counterexample:
  "differences (compare_trees (Some (Node ''X'' [Node ''A'' [], Node ''B'' []]))
                              (Some (Node ''X'' [Node ''A'' []]))) =
     [\<lparr>path = ''X'', expected = ''1'', actual = ''2'', kind = CHILD_COUNT_MISMATCH\<rparr>,
      \<lparr>path = ''X > [child 1]'', expected = ''(absent)'', actual = ''B'', kind = EXTRA_CHILD\<rparr>]
   \<and> \<not> (\<exists>d \<in> set (differences (compare_trees (Some (Node ''X'' [Node ''A'' [], Node ''B'' []]))
                                                (Some (Node ''X'' [Node ''A'' []])))).
          kind d = EXTRA_CHILD \<and> path d = ''X[child 1]'')"
  by (simp add: compare_trees_def compare_nodes_Node Let_def str_nat.simps digit_char_def)

section \<open>Properties of the normalizers\<close>

subsection \<open>Facts about the tables\<close>

lemma wildcard_keys:
  "map_of WRAPPER_COLLAPSE nm = Some ''*'' \<Longrightarrow>
   nm = ''ANNOTATED_EXPRESSION'' \<or> nm = ''LABELED_EXPRESSION''"
  by (simp add: WRAPPER_COLLAPSE_def split: if_splits)

lemma wildcard_keys_skipped:
  "''ANNOTATED_EXPRESSION'' \<in> set SKIP_PSI_NODES" "''LABELED_EXPRESSION'' \<in> set SKIP_PSI_NODES"
  by code_simp+

lemma skip_psi_not_special:
  "''PACKAGE_DIRECTIVE'' \<notin> set SKIP_PSI_NODES" "''IMPORT_LIST'' \<notin> set SKIP_PSI_NODES"
  "''MODIFIER_LIST'' \<notin> set SKIP_PSI_NODES" "''VALUE_PARAMETER_LIST'' \<notin> set SKIP_PSI_NODES"
  "''DOT_QUALIFIED_EXPRESSION'' \<notin> set SKIP_PSI_NODES"
  by code_simp+

subsection \<open>The branches of the node functions\<close>

lemma normalize_ts_node_skip:
  assumes "name node \<in> set SKIP_TS_NODES"
  shows "normalize_ts_node node =
     (if length (ts_normalized_children node) = 1 then Some (hd (ts_normalized_children node))
      else if length (ts_normalized_children node) > 1 then
        (case ts_to_psi_get (name node) of
           None \<Rightarrow> None
         | Some mapped \<Rightarrow>
             if mapped \<noteq> [] then Some (Node mapped (ts_normalized_children node)) else None)
      else None)"
  using assms
  by (subst normalize_ts_node.simps)
     (simp add: ts_normalized_children_def Let_def split: option.split)

lemma normalize_ts_node_unmapped:
  assumes "name node \<notin> set SKIP_TS_NODES" "ts_to_psi_get (name node) = None"
  shows "normalize_ts_node node =
     (if length (ts_normalized_children node) = 1 then Some (hd (ts_normalized_children node))
      else if length (ts_normalized_children node) > 1
           then Some (Node (name node) (ts_normalized_children node))
           else None)"
  using assms
  by (subst normalize_ts_node.simps) (simp add: ts_normalized_children_def Let_def)

lemma normalize_psi_node_skip:
  assumes "name node \<in> set SKIP_PSI_NODES"
  shows "normalize_psi_node node =
     (if length (psi_normalized_children node) = 1 then Some (hd (psi_normalized_children node))
      else None)"
proof -
  from assms skip_psi_not_special
  have "name node \<noteq> ''PACKAGE_DIRECTIVE''" "name node \<noteq> ''IMPORT_LIST''"
    "name node \<noteq> ''MODIFIER_LIST''" "name node \<noteq> ''VALUE_PARAMETER_LIST''"
    "name node \<noteq> ''DOT_QUALIFIED_EXPRESSION''"
    by auto
  with assms show ?thesis
    by (subst normalize_psi_node.simps) (simp add: psi_normalized_children_def Let_def)
qed

lemma nest_property_accessors_single: "nest_property_accessors [c] = [c]"
  by (simp add: nest_property_accessors_def nest_step_def)


text \<open>
  C6: a source-side node whose name maps to None in TS_TO_PSI and that has exactly one
  normalized child is replaced by that child; with one child before the accessors are
  nested there is one child after it, so the same holds for either count.
\<close>

theorem unmapped_single_child_promoted:
  "map_of TS_TO_PSI (name node) = Some None \<Longrightarrow>
   (ts_normalized_children node = [c] \<longrightarrow> normalize_ts node = Some c) \<and>
   (concat (map normalize_ts_child (children node)) = [c] \<longrightarrow> normalize_ts node = Some c)"
proof -
  assume m: "map_of TS_TO_PSI (name node) = Some None"
  then have g: "ts_to_psi_get (name node) = None"
    by (simp add: ts_to_psi_get_def)
  have one: "normalize_ts node = Some c" if "ts_normalized_children node = [c]"
  proof (cases "name node \<in> set SKIP_TS_NODES")
    case True
    then show ?thesis
      using that by (simp add: normalize_ts_def normalize_ts_node_skip)
  next
    case False
    then show ?thesis
      using that g by (simp add: normalize_ts_def normalize_ts_node_unmapped)
  qed
  moreover have "ts_normalized_children node = [c]"
    if "concat (map normalize_ts_child (children node)) = [c]"
    using that by (simp add: ts_normalized_children_def nest_property_accessors_single)
  ultimately show ?thesis by blast
qed

theorem unmapped_single_child_promoted_witness:
  "map_of TS_TO_PSI (name (Node ''statements'' [Node ''integer_literal'' []])) = Some None
   \<and> ts_normalized_children (Node ''statements'' [Node ''integer_literal'' []]) =
       [Node ''INTEGER_CONSTANT'' []]
   \<and> concat (map normalize_ts_child (children (Node ''statements'' [Node ''integer_literal'' []]))) =
       [Node ''INTEGER_CONSTANT'' []]
   \<and> normalize_ts (Node ''statements'' [Node ''integer_literal'' []]) =
       Some (Node ''INTEGER_CONSTANT'' [])"
proof -
  let ?n = "Node ''statements'' [Node ''integer_literal'' []]"
  have h1: "map_of TS_TO_PSI (name ?n) = Some None" by code_simp
  have h2: "ts_normalized_children ?n = [Node ''INTEGER_CONSTANT'' []]" by code_simp
  have h3: "concat (map normalize_ts_child (children ?n)) = [Node ''INTEGER_CONSTANT'' []]"
    by code_simp
  from unmapped_single_child_promoted [OF h1, of "Node ''INTEGER_CONSTANT'' []"] h2
  have "normalize_ts ?n = Some (Node ''INTEGER_CONSTANT'' [])" by blast
  with h1 h2 h3 show ?thesis by blast
qed

subsection \<open>Nodes with several normalized children and no mapped name\<close>

text \<open>
  C5 (as the code has it): with more than one normalized child and no mapped name, a
  source-side node that is not in the source skip set becomes a node with the original
  name and all of those children. A node of the source skip set, and on the reference
  side a node of the reference skip set, normalizes to absent instead; the child
  function then returns the normalized children of the node's children, which the
  enclosing node takes into its own child list.
\<close>

theorem multi_child_fallback:
  "(name node \<notin> set SKIP_TS_NODES \<and> ts_to_psi_get (name node) = None
      \<and> length (ts_normalized_children node) > 1 \<longrightarrow>
      normalize_ts node = Some (Node (name node) (ts_normalized_children node)))
   \<and> (name node \<in> set SKIP_TS_NODES \<and> ts_to_psi_get (name node) = None
      \<and> length (ts_normalized_children node) > 1 \<longrightarrow>
      normalize_ts node = None
      \<and> normalize_ts_child node = concat (map normalize_ts_child (children node)))
   \<and> (name node \<in> set SKIP_PSI_NODES \<and> length (psi_normalized_children node) > 1 \<longrightarrow>
      normalize_psi node = None
      \<and> normalize_psi_child node = concat (map normalize_psi_child (children node)))"
proof (intro conjI impI)
  assume "name node \<notin> set SKIP_TS_NODES \<and> ts_to_psi_get (name node) = None
      \<and> length (ts_normalized_children node) > 1"
  then show "normalize_ts node = Some (Node (name node) (ts_normalized_children node))"
    by (simp add: normalize_ts_def normalize_ts_node_unmapped)
next
  assume h: "name node \<in> set SKIP_TS_NODES \<and> ts_to_psi_get (name node) = None
      \<and> length (ts_normalized_children node) > 1"
  then have n: "normalize_ts_node node = None"
    by (simp add: normalize_ts_node_skip)
  then show "normalize_ts node = None"
    by (simp add: normalize_ts_def)
  from n show "normalize_ts_child node = concat (map normalize_ts_child (children node))"
    by (subst normalize_ts_child.simps) simp
next
  assume h: "name node \<in> set SKIP_PSI_NODES \<and> length (psi_normalized_children node) > 1"
  then have n: "normalize_psi_node node = None"
    by (simp add: normalize_psi_node_skip)
  then show "normalize_psi node = None"
    by (simp add: normalize_psi_def)
  from n show "normalize_psi_child node = concat (map normalize_psi_child (children node))"
    by (subst normalize_psi_child.simps) simp
qed

theorem multi_child_fallback_witness:
  "normalize_ts (Node ''unknown_node'' [Node ''integer_literal'' [], Node ''null_literal'' []]) =
     Some (Node ''unknown_node'' [Node ''INTEGER_CONSTANT'' [], Node ''NULL'' []])
   \<and> normalize_ts (Node ''statements'' [Node ''integer_literal'' [], Node ''null_literal'' []]) = None
   \<and> normalize_ts_child (Node ''statements'' [Node ''integer_literal'' [], Node ''null_literal'' []]) =
     [Node ''INTEGER_CONSTANT'' [], Node ''NULL'' []]
   \<and> normalize_psi (Node ''BODY'' [Node ''BLOCK'' [], Node ''CALL_EXPRESSION'' []]) = None
   \<and> normalize_psi_child (Node ''BODY'' [Node ''BLOCK'' [], Node ''CALL_EXPRESSION'' []]) =
     [Node ''BLOCK'' [], Node ''CALL_EXPRESSION'' []]"
proof -
  let ?u = "Node ''unknown_node'' [Node ''integer_literal'' [], Node ''null_literal'' []]"
  let ?s = "Node ''statements'' [Node ''integer_literal'' [], Node ''null_literal'' []]"
  let ?b = "Node ''BODY'' [Node ''BLOCK'' [], Node ''CALL_EXPRESSION'' []]"
  have u1: "name ?u \<notin> set SKIP_TS_NODES" by code_simp
  have u2: "ts_to_psi_get (name ?u) = None" by code_simp
  have u3: "ts_normalized_children ?u = [Node ''INTEGER_CONSTANT'' [], Node ''NULL'' []]"
    by code_simp
  have s1: "name ?s \<in> set SKIP_TS_NODES" by code_simp
  have s2: "ts_to_psi_get (name ?s) = None" by code_simp
  have s3: "ts_normalized_children ?s = [Node ''INTEGER_CONSTANT'' [], Node ''NULL'' []]"
    by code_simp
  have s4: "concat (map normalize_ts_child (children ?s)) =
      [Node ''INTEGER_CONSTANT'' [], Node ''NULL'' []]"
    by code_simp
  have b1: "name ?b \<in> set SKIP_PSI_NODES" by code_simp
  have b3: "psi_normalized_children ?b = [Node ''BLOCK'' [], Node ''CALL_EXPRESSION'' []]"
    by code_simp
  have b4: "concat (map normalize_psi_child (children ?b)) =
      [Node ''BLOCK'' [], Node ''CALL_EXPRESSION'' []]"
    by code_simp
  have lu: "length (ts_normalized_children ?u) > 1" by (simp only: u3) simp
  have ls: "length (ts_normalized_children ?s) > 1" by (simp only: s3) simp
  have lb: "length (psi_normalized_children ?b) > 1" by (simp only: b3) simp
  from multi_child_fallback [of ?u] u1 u2 lu
  have "normalize_ts ?u = Some (Node (name ?u) (ts_normalized_children ?u))" by blast
  then have r1: "normalize_ts ?u =
      Some (Node ''unknown_node'' [Node ''INTEGER_CONSTANT'' [], Node ''NULL'' []])"
    by (simp only: u3 node.sel)
  from multi_child_fallback [of ?s] s1 s2 ls
  have "normalize_ts ?s = None
      \<and> normalize_ts_child ?s = concat (map normalize_ts_child (children ?s))" by blast
  then have r2: "normalize_ts ?s = None"
    and r3: "normalize_ts_child ?s = [Node ''INTEGER_CONSTANT'' [], Node ''NULL'' []]"
    by (simp_all only: s4)
  from multi_child_fallback [of ?b] b1 lb
  have "normalize_psi ?b = None
      \<and> normalize_psi_child ?b = concat (map normalize_psi_child (children ?b))" by blast
  then have r4: "normalize_psi ?b = None"
    and r5: "normalize_psi_child ?b = [Node ''BLOCK'' [], Node ''CALL_EXPRESSION'' []]"
    by (simp_all only: b4)
  from r1 r2 r3 r4 r5 show ?thesis by blast
qed

text \<open>
  C5 as stated fails on both sides: a node of a skip set with two normalized children
  and no mapped name normalizes to absent, not to a node with the original name.
\<close>

theorem skip_multi_child_counterexample:
  "''statements'' \<in> set SKIP_TS_NODES
   \<and> ts_to_psi_get ''statements'' = None
   \<and> ts_normalized_children (Node ''statements'' [Node ''integer_literal'' [], Node ''null_literal'' []]) =
       [Node ''INTEGER_CONSTANT'' [], Node ''NULL'' []]
   \<and> normalize_ts (Node ''statements'' [Node ''integer_literal'' [], Node ''null_literal'' []]) = None
   \<and> ''BODY'' \<in> set SKIP_PSI_NODES
   \<and> psi_normalized_children (Node ''BODY'' [Node ''BLOCK'' [], Node ''CALL_EXPRESSION'' []]) =
       [Node ''BLOCK'' [], Node ''CALL_EXPRESSION'' []]
   \<and> normalize_psi (Node ''BODY'' [Node ''BLOCK'' [], Node ''CALL_EXPRESSION'' []]) = None"
  by code_simp

subsection \<open>Wildcard wrapper collapse and skipped roots on the reference side\<close>

text \<open>
  C7 (as the code has it): a reference-side node whose name is a wrapper-collapse key
  with the wildcard target is replaced by its normalized child when it has exactly one;
  with no or several normalized children it normalizes to absent, because both wildcard
  keys are in the reference skip set, which is tested before the wrapper-collapse table.
\<close>

theorem wildcard_wrapper_collapse:
  "map_of WRAPPER_COLLAPSE (name node) = Some ''*'' \<Longrightarrow>
   (psi_normalized_children node = [c] \<longrightarrow> normalize_psi node = Some c) \<and>
   (length (psi_normalized_children node) \<noteq> 1 \<longrightarrow> normalize_psi node = None)"
proof -
  assume "map_of WRAPPER_COLLAPSE (name node) = Some ''*''"
  then have "name node \<in> set SKIP_PSI_NODES"
    using wildcard_keys [of "name node"] wildcard_keys_skipped by auto
  then show ?thesis
    by (simp add: normalize_psi_def normalize_psi_node_skip)
qed

theorem wildcard_wrapper_collapse_witness:
  "map_of WRAPPER_COLLAPSE (name (Node ''LABELED_EXPRESSION'' [Node ''CALL_EXPRESSION'' []])) =
     Some ''*''
   \<and> psi_normalized_children (Node ''LABELED_EXPRESSION'' [Node ''CALL_EXPRESSION'' []]) =
     [Node ''CALL_EXPRESSION'' []]
   \<and> normalize_psi (Node ''LABELED_EXPRESSION'' [Node ''CALL_EXPRESSION'' []]) =
     Some (Node ''CALL_EXPRESSION'' [])
   \<and> map_of WRAPPER_COLLAPSE
       (name (Node ''ANNOTATED_EXPRESSION'' [Node ''BLOCK'' [], Node ''CALL_EXPRESSION'' []])) =
     Some ''*''
   \<and> length (psi_normalized_children
       (Node ''ANNOTATED_EXPRESSION'' [Node ''BLOCK'' [], Node ''CALL_EXPRESSION'' []])) \<noteq> 1
   \<and> normalize_psi (Node ''ANNOTATED_EXPRESSION'' [Node ''BLOCK'' [], Node ''CALL_EXPRESSION'' []]) =
     None"
proof -
  let ?l = "Node ''LABELED_EXPRESSION'' [Node ''CALL_EXPRESSION'' []]"
  let ?a = "Node ''ANNOTATED_EXPRESSION'' [Node ''BLOCK'' [], Node ''CALL_EXPRESSION'' []]"
  have l1: "map_of WRAPPER_COLLAPSE (name ?l) = Some ''*''" by code_simp
  have l2: "psi_normalized_children ?l = [Node ''CALL_EXPRESSION'' []]" by code_simp
  have a1: "map_of WRAPPER_COLLAPSE (name ?a) = Some ''*''" by code_simp
  have a2: "length (psi_normalized_children ?a) \<noteq> 1" by code_simp
  from wildcard_wrapper_collapse [OF l1, of "Node ''CALL_EXPRESSION'' []"] l2
  have r1: "normalize_psi ?l = Some (Node ''CALL_EXPRESSION'' [])" by blast
  from wildcard_wrapper_collapse [OF a1] a2
  have r2: "normalize_psi ?a = None" by blast
  from l1 l2 r1 a1 a2 r2 show ?thesis by blast
qed

text \<open>
  C7 as stated fails: a wildcard wrapper with no normalized child is not retained, it
  normalizes to absent; so does one with two normalized children.
\<close>

theorem wildcard_wrapper_retained_counterexample:
  "map_of WRAPPER_COLLAPSE ''ANNOTATED_EXPRESSION'' = Some ''*''
   \<and> psi_normalized_children (Node ''ANNOTATED_EXPRESSION'' []) = []
   \<and> normalize_psi (Node ''ANNOTATED_EXPRESSION'' []) = None
   \<and> psi_normalized_children
        (Node ''ANNOTATED_EXPRESSION'' [Node ''BLOCK'' [], Node ''CALL_EXPRESSION'' []]) =
      [Node ''BLOCK'' [], Node ''CALL_EXPRESSION'' []]
   \<and> normalize_psi (Node ''ANNOTATED_EXPRESSION'' [Node ''BLOCK'' [], Node ''CALL_EXPRESSION'' []]) =
      None"
  by code_simp

text \<open>
  C10 (as the code has it): a reference-side tree whose root is in the reference skip
  set and does not have exactly one normalized child normalizes to absent; the
  comparison of a present candidate with it then reports PSI_PARSE_ERROR, and the
  comparison of an absent candidate with it reports TS_PARSE_ERROR.
\<close>

theorem skipped_root_is_parse_error:
  "name node \<in> set SKIP_PSI_NODES \<Longrightarrow> length (psi_normalized_children node) \<noteq> 1 \<Longrightarrow>
   normalize_psi node = None
   \<and> compare_trees (Some t) (normalize_psi node) =
       \<lparr>status = PSI_PARSE_ERROR, differences = []\<rparr>
   \<and> compare_trees None (normalize_psi node) =
       \<lparr>status = TS_PARSE_ERROR, differences = []\<rparr>"
  by (simp add: normalize_psi_def normalize_psi_node_skip compare_trees_def)

theorem skipped_root_is_parse_error_witness:
  "name (Node ''BODY'' [Node ''BLOCK'' [], Node ''CALL_EXPRESSION'' []]) \<in> set SKIP_PSI_NODES
   \<and> length (psi_normalized_children (Node ''BODY'' [Node ''BLOCK'' [], Node ''CALL_EXPRESSION'' []]))
       \<noteq> 1
   \<and> normalize_psi (Node ''BODY'' [Node ''BLOCK'' [], Node ''CALL_EXPRESSION'' []]) = None
   \<and> compare_trees (Some (Node ''KtFile'' []))
        (normalize_psi (Node ''BODY'' [Node ''BLOCK'' [], Node ''CALL_EXPRESSION'' []])) =
       \<lparr>status = PSI_PARSE_ERROR, differences = []\<rparr>"
proof -
  let ?b = "Node ''BODY'' [Node ''BLOCK'' [], Node ''CALL_EXPRESSION'' []]"
  have b1: "name ?b \<in> set SKIP_PSI_NODES" by code_simp
  have b2: "length (psi_normalized_children ?b) \<noteq> 1" by code_simp
  from skipped_root_is_parse_error [OF b1 b2, of "Node ''KtFile'' []"] b1 b2
  show ?thesis by blast
qed

text \<open>
  C10 as stated fails when the candidate is absent: the root BODY is in the reference
  skip set and has two normalized children, the reference normalizes to absent, and
  the comparison reports TS_PARSE_ERROR, not PSI_PARSE_ERROR.
\<close>

theorem skipped_root_absent_candidate_counterexample:
  "''BODY'' \<in> set SKIP_PSI_NODES
   \<and> psi_normalized_children (Node ''BODY'' [Node ''BLOCK'' [], Node ''CALL_EXPRESSION'' []]) =
       [Node ''BLOCK'' [], Node ''CALL_EXPRESSION'' []]
   \<and> normalize_psi (Node ''BODY'' [Node ''BLOCK'' [], Node ''CALL_EXPRESSION'' []]) = None
   \<and> compare_trees None
        (normalize_psi (Node ''BODY'' [Node ''BLOCK'' [], Node ''CALL_EXPRESSION'' []])) =
       \<lparr>status = TS_PARSE_ERROR, differences = []\<rparr>
   \<and> status (compare_trees None
        (normalize_psi (Node ''BODY'' [Node ''BLOCK'' [], Node ''CALL_EXPRESSION'' []]))) \<noteq>
       PSI_PARSE_ERROR"
proof -
  let ?b = "Node ''BODY'' [Node ''BLOCK'' [], Node ''CALL_EXPRESSION'' []]"
  have b1: "''BODY'' \<in> set SKIP_PSI_NODES" by code_simp
  have b2: "psi_normalized_children ?b = [Node ''BLOCK'' [], Node ''CALL_EXPRESSION'' []]"
    by code_simp
  have b3: "normalize_psi ?b = None" by code_simp
  have b4: "compare_trees None (normalize_psi ?b) =
      \<lparr>status = TS_PARSE_ERROR, differences = []\<rparr>"
    by (simp add: compare_trees_def)
  have b5: "status (compare_trees None (normalize_psi ?b)) \<noteq> PSI_PARSE_ERROR"
    by (simp add: compare_trees_def)
  from b1 b2 b3 b4 b5 show ?thesis by blast
qed

subsection \<open>Termination of the normalizers\<close>

lemma size_child: "c \<in> set (children node) \<Longrightarrow> size c < size node"
  by (cases node) (auto simp: less_Suc_eq_le size_list_estimation')

lemma size_child_double: "c \<in> set (children node) \<Longrightarrow> Suc (2 * size c) < 2 * size node"
  using size_child [of c node] by linarith

text \<open>
  C9: the node and child functions of both normalizers and the call-chain flattening
  terminate on every input: every input is in the domain of the recursion (the
  accessible part of the relation between a call and the calls it makes), and along
  every recursive call the measure decreases: a child function calls the node function
  on the same node and the child function on children of the node, a node function
  calls the child function on children of the node, and the flattening calls itself on
  the children of the first node of its list.
\<close>

theorem normalizers_terminate:
  "normalize_ts_node_normalize_ts_child_dom x
   \<and> normalize_psi_node_normalize_psi_child_dom x
   \<and> flatten_call_expression_dom cs
   \<and> (normalize_ts_node_normalize_ts_child_rel y x \<longrightarrow> call_measure y < call_measure x)
   \<and> (normalize_psi_node_normalize_psi_child_rel y x \<longrightarrow> call_measure y < call_measure x)
   \<and> (flatten_call_expression_rel ds cs \<longrightarrow> size_list size ds < size_list size cs)"
proof (intro conjI impI)
  have ts: "call_measure b < call_measure a"
    if "normalize_ts_node_normalize_ts_child_rel b a" for a b
    using that
    by (cases rule: normalize_ts_node_normalize_ts_child_rel.cases)
       (simp_all add: call_measure_def size_child size_child_double)
  have "wfp normalize_ts_node_normalize_ts_child_rel"
    by (rule wfp_if_convertible_to_nat [of _ call_measure]) (rule ts)
  then show "normalize_ts_node_normalize_ts_child_dom x"
    by (rule accp_wfpD)
  have psi: "call_measure b < call_measure a"
    if "normalize_psi_node_normalize_psi_child_rel b a" for a b
    using that
    by (cases rule: normalize_psi_node_normalize_psi_child_rel.cases)
       (simp_all add: call_measure_def size_child size_child_double)
  have "wfp normalize_psi_node_normalize_psi_child_rel"
    by (rule wfp_if_convertible_to_nat [of _ call_measure]) (rule psi)
  then show "normalize_psi_node_normalize_psi_child_dom x"
    by (rule accp_wfpD)
  have fl: "size_list size b < size_list size a"
    if "flatten_call_expression_rel b a" for a b
    using that by (cases rule: flatten_call_expression_rel.cases) simp_all
  have "wfp flatten_call_expression_rel"
    by (rule wfp_if_convertible_to_nat [of _ "size_list size"]) (rule fl)
  then show "flatten_call_expression_dom cs"
    by (rule accp_wfpD)
next
  assume "normalize_ts_node_normalize_ts_child_rel y x"
  then show "call_measure y < call_measure x"
    by (cases rule: normalize_ts_node_normalize_ts_child_rel.cases)
       (simp_all add: call_measure_def size_child size_child_double)
next
  assume "normalize_psi_node_normalize_psi_child_rel y x"
  then show "call_measure y < call_measure x"
    by (cases rule: normalize_psi_node_normalize_psi_child_rel.cases)
       (simp_all add: call_measure_def size_child size_child_double)
next
  assume "flatten_call_expression_rel ds cs"
  then show "size_list size ds < size_list size cs"
    by (cases rule: flatten_call_expression_rel.cases) simp_all
qed


theorem normalizers_terminate_witness:
  "normalize_ts_node_normalize_ts_child_rel
     (Inr (Node ''simple_identifier'' []))
     (Inl (Node ''user_type'' [Node ''simple_identifier'' []]))
   \<and> call_measure (Inr (Node ''simple_identifier'' []))
       < call_measure (Inl (Node ''user_type'' [Node ''simple_identifier'' []]))
   \<and> normalize_psi_node_normalize_psi_child_rel
     (Inl (Node ''USER_TYPE'' [])) (Inr (Node ''USER_TYPE'' []))
   \<and> call_measure (Inl (Node ''USER_TYPE'' [])) < call_measure (Inr (Node ''USER_TYPE'' []))
   \<and> flatten_call_expression_rel [Node ''FUNCTION_LITERAL'' []]
     [Node ''CALL_EXPRESSION'' [Node ''FUNCTION_LITERAL'' []]]
   \<and> size_list size [Node ''FUNCTION_LITERAL'' []]
       < size_list size [Node ''CALL_EXPRESSION'' [Node ''FUNCTION_LITERAL'' []]]"
proof -
  let ?c = "Node ''simple_identifier'' []"
  let ?p = "Node ''user_type'' [Node ''simple_identifier'' []]"
  let ?u = "Node ''USER_TYPE'' []"
  let ?ds = "[Node ''FUNCTION_LITERAL'' []]"
  let ?cs = "[Node ''CALL_EXPRESSION'' [Node ''FUNCTION_LITERAL'' []]]"
  have r1: "normalize_ts_node_normalize_ts_child_rel (Inr ?c) (Inl ?p)"
    by (rule normalize_ts_node_normalize_ts_child_rel.intros(1)) simp
  have r2: "normalize_psi_node_normalize_psi_child_rel (Inl ?u) (Inr ?u)"
    by (rule normalize_psi_node_normalize_psi_child_rel.intros(2))
  have r3: "flatten_call_expression_rel ?ds ?cs"
    by (rule flatten_call_expression_rel.intros) simp
  from normalizers_terminate [where y = "Inr ?c" and x = "Inl ?p"] r1
  have m1: "call_measure (Inr ?c) < call_measure (Inl ?p)" by blast
  from normalizers_terminate [where y = "Inl ?u" and x = "Inr ?u"] r2
  have m2: "call_measure (Inl ?u) < call_measure (Inr ?u)" by blast
  from normalizers_terminate [where ds = ?ds and cs = ?cs] r3
  have m3: "size_list size ?ds < size_list size ?cs" by blast
  from r1 m1 r2 m2 r3 m3 show ?thesis by blast
qed

subsection \<open>The mapped branch of the tree-sitter node function\<close>

text \<open>
  For the proofs about mapped nodes, the parts of \<^verbatim>\<open>_normalize_ts_node\<close> after the name
  is mapped, each as a function of its own: the mapped name after the adjustment for
  \<^verbatim>\<open>check_expression\<close>, the test for an expression body, and the seven rewrites of the
  normalized children in their order. The lemma \<open>normalize_ts_node_mapped\<close> below shows
  that the node function is composed of them.
\<close>

definition ts_mapped_name :: "node \<Rightarrow> string \<Rightarrow> string" where
  "ts_mapped_name node mapped_name0 =
     (if name node = ''check_expression''
      then (if list_ex (\<lambda>c. name c \<in> set [''user_type'', ''nullable_type'',
                   ''parenthesized_type'', ''function_type'', ''type_identifier''])
                 (children node)
            then ''IS_EXPRESSION'' else ''BINARY_EXPRESSION'')
      else mapped_name0)"

definition expression_body :: "node \<Rightarrow> bool" where
  "expression_body node \<longleftrightarrow>
     \<not> list_ex (\<lambda>c. name c = ''statements'') (children node)
     \<and> list_ex (\<lambda>c. name c \<notin> set [''statements'', ''line_comment'', ''multiline_comment''])
          (children node)"

definition ts_rewrite_children :: "string \<Rightarrow> node list \<Rightarrow> node list" where
  "ts_rewrite_children mapped_name normalized_children =
     (let normalized_children1 =
            (if mapped_name \<in> set [''PRIMARY_CONSTRUCTOR'', ''PROPERTY_ACCESSOR'']
             then inject_value_parameter_list normalized_children
             else normalized_children);
          normalized_children2 =
            (if mapped_name \<in> set [''FUN'', ''PROPERTY'']
             then unwrap_receiver_type normalized_children1
             else normalized_children1);
          normalized_children3 =
            (if mapped_name = ''CALL_EXPRESSION''
             then flatten_call_expression normalized_children2
             else normalized_children2);
          normalized_children4 =
            (if mapped_name = ''FUNCTION_LITERAL'' \<and> normalized_children3 = []
             then [Node ''BLOCK'' []]
             else normalized_children3);
          normalized_children5 =
            (if mapped_name = ''CLASS_INITIALIZER'' \<and> normalized_children4 \<noteq> []
             then [Node ''BLOCK'' normalized_children4]
             else normalized_children4);
          normalized_children6 =
            (if mapped_name = ''OBJECT_LITERAL'' \<and> normalized_children5 \<noteq> []
             then [Node ''OBJECT_DECLARATION'' normalized_children5]
             else normalized_children5)
      in if mapped_name = ''VALUE_PARAMETER_LIST''
         then wrap_bare_types_in_value_parameter normalized_children6
         else normalized_children6)"

lemma normalize_ts_node_mapped:
  assumes "name node \<notin> set SKIP_TS_NODES" "ts_to_psi_get (name node) = Some m0"
  shows "normalize_ts_node node =
     (let mapped_name = ts_mapped_name node m0;
          nc = ts_normalized_children node;
          nc7 = ts_rewrite_children mapped_name nc
      in if mapped_name = ''BLOCK'' \<and> name node = ''control_structure_body''
            \<and> expression_body node \<and> length nc = 1
         then Some (hd nc)
         else if mapped_name = ''BLOCK'' \<and> name node = ''control_structure_body''
            \<and> expression_body node \<and> nc = []
         then None
         else if mapped_name = ''DOT_QUALIFIED_EXPRESSION'' \<and> nc = [] then None
         else if mapped_name = ''BLOCK'' \<and> name node = ''function_body''
            \<and> expression_body node \<and> length nc7 = 1
         then Some (hd nc7)
         else if mapped_name = ''BLOCK'' \<and> name node = ''function_body''
            \<and> expression_body node \<and> nc7 = []
         then None
         else if mapped_name = ''MODIFIER_LIST'' \<and> nc7 = [] then None
         else if mapped_name = ''VALUE_PARAMETER_LIST'' \<and> nc7 = [] then None
         else Some (Node mapped_name nc7))"
  apply (subst normalize_ts_node.simps)
  unfolding Let_def ts_mapped_name_def expression_body_def ts_rewrite_children_def
    ts_normalized_children_def
  using assms
  by (simp only: if_False option.case conj_assoc)


lemma fun_property_keys:
  "\<forall>(k, v) \<in> set TS_TO_PSI.
     v \<in> set [Some ''FUN'', Some ''PROPERTY'', Some ''FUNCTION_TYPE''] \<longrightarrow>
     k \<in> set [''function_declaration'', ''anonymous_function'', ''property_declaration'',
              ''function_type'']"
  by code_simp

lemma fun_property_not_skipped:
  "''function_declaration'' \<notin> set SKIP_TS_NODES" "''anonymous_function'' \<notin> set SKIP_TS_NODES"
  "''property_declaration'' \<notin> set SKIP_TS_NODES" "''function_type'' \<notin> set SKIP_TS_NODES"
  by code_simp+

lemma ts_to_psi_get_SomeD: "ts_to_psi_get nm = Some m \<Longrightarrow> (nm, Some m) \<in> set TS_TO_PSI"
  by (auto simp: ts_to_psi_get_def split: option.splits dest: map_of_SomeD)

lemma mapped_fun_property:
  assumes "ts_to_psi_get nm = Some m" "m = ''FUN'' \<or> m = ''PROPERTY'' \<or> m = ''FUNCTION_TYPE''"
  shows "nm \<notin> set SKIP_TS_NODES \<and> nm \<noteq> ''check_expression''"
proof -
  from ts_to_psi_get_SomeD [OF assms(1)] fun_property_keys assms(2)
  have "nm \<in> set [''function_declaration'', ''anonymous_function'', ''property_declaration'',
              ''function_type'']"
    by fastforce
  then show ?thesis
    using fun_property_not_skipped by auto
qed

lemma concat_map_if_id:
  "\<not> list_ex P cs \<Longrightarrow> concat (map (\<lambda>c. if P c then f c else [c]) cs) = cs"
  by (induction cs) auto

lemma unwrap_receiver_type_eq:
  "unwrap_receiver_type cs =
     concat (map (\<lambda>child. if name child = ''FUNCTION_TYPE_RECEIVER'' then children child
                           else [child]) cs)"
  by (simp add: unwrap_receiver_type_def concat_map_if_id)

lemma ts_rewrite_children_fun:
  "m = ''FUN'' \<or> m = ''PROPERTY'' \<Longrightarrow> ts_rewrite_children m nc = unwrap_receiver_type nc"
  by (auto simp: ts_rewrite_children_def Let_def)

lemma ts_rewrite_children_function_type: "ts_rewrite_children ''FUNCTION_TYPE'' nc = nc"
  by (simp add: ts_rewrite_children_def Let_def)

lemma inject_fold_result:
  "c \<in> set (fst st) \<Longrightarrow> c \<in> set (fst (foldl inject_step st xs))"
  by (induction xs arbitrary: st) (auto simp: inject_step_def split: prod.splits)

lemma inject_fold_keeps:
  "c \<in> set xs \<Longrightarrow> name c \<noteq> ''VALUE_PARAMETER'' \<Longrightarrow> c \<in> set (fst (foldl inject_step st xs))"
proof (induction xs arbitrary: st)
  case Nil
  then show ?case by simp
next
  case (Cons x xs)
  show ?case
  proof (cases "c = x")
    case True
    with Cons.prems have "c \<in> set (fst (inject_step st x))"
      by (auto simp: inject_step_def split: prod.splits)
    then show ?thesis by (simp add: inject_fold_result)
  next
    case False
    with Cons show ?thesis by simp
  qed
qed

lemma inject_keeps:
  assumes "c \<in> set cs" "name c \<noteq> ''VALUE_PARAMETER''"
  shows "c \<in> set (inject_value_parameter_list cs)"
proof -
  obtain result param_group where e: "foldl inject_step ([], []) cs = (result, param_group)"
    by (cases "foldl inject_step ([], []) cs")
  with inject_fold_keeps [OF assms, of "([], [])"] have "c \<in> set result"
    by simp
  then show ?thesis
    using assms(1) by (simp add: inject_value_parameter_list_def e)
qed

lemma flatten_keeps:
  "c \<in> set cs \<Longrightarrow> name c \<noteq> ''CALL_EXPRESSION'' \<Longrightarrow> c \<in> set (flatten_call_expression cs)"
  by (cases cs rule: flatten_call_expression.cases) auto

lemma wrap_keeps:
  "c \<in> set cs \<Longrightarrow> name c = ''FUNCTION_TYPE_RECEIVER'' \<Longrightarrow>
   c \<in> set (wrap_bare_types_in_value_parameter cs)"
  by (auto simp: wrap_bare_types_in_value_parameter_def Let_def image_iff intro!: bexI [of _ c])

lemma subnodes_self: "c \<in> set (subnodes c)"
  by (cases c) simp

lemma subnodes_child: "d \<in> set cs \<Longrightarrow> c \<in> set (subnodes d) \<Longrightarrow> c \<in> set (subnodes (Node nm cs))"
  by auto

lemma single_hd: "length xs = 1 \<Longrightarrow> x \<in> set xs \<Longrightarrow> x = hd xs"
  by (cases xs) auto

lemma ts_rewrite_keeps:
  assumes "m \<noteq> ''FUN''" "m \<noteq> ''PROPERTY''" "c \<in> set nc" "name c = ''FUNCTION_TYPE_RECEIVER''"
  shows "\<exists>d \<in> set (ts_rewrite_children m nc). c \<in> set (subnodes d)"
proof -
  have ne: "nc \<noteq> []" using assms(3) by auto
  consider (inject) "m = ''PRIMARY_CONSTRUCTOR'' \<or> m = ''PROPERTY_ACCESSOR''"
    | (flatten) "m = ''CALL_EXPRESSION''"
    | (initializer) "m = ''CLASS_INITIALIZER''"
    | (literal) "m = ''OBJECT_LITERAL''"
    | (wrap) "m = ''VALUE_PARAMETER_LIST''"
    | (other) "m \<noteq> ''PRIMARY_CONSTRUCTOR''" "m \<noteq> ''PROPERTY_ACCESSOR''" "m \<noteq> ''CALL_EXPRESSION''"
        "m \<noteq> ''CLASS_INITIALIZER''" "m \<noteq> ''OBJECT_LITERAL''" "m \<noteq> ''VALUE_PARAMETER_LIST''"
    by blast
  then show ?thesis
  proof cases
    case inject
    then have "ts_rewrite_children m nc = inject_value_parameter_list nc"
      by (auto simp: ts_rewrite_children_def Let_def)
    moreover have "c \<in> set (inject_value_parameter_list nc)"
      using assms by (simp add: inject_keeps)
    ultimately show ?thesis using subnodes_self by auto
  next
    case flatten
    then have "ts_rewrite_children m nc = flatten_call_expression nc"
      by (simp add: ts_rewrite_children_def Let_def)
    moreover have "c \<in> set (flatten_call_expression nc)"
      using assms by (simp add: flatten_keeps)
    ultimately show ?thesis using subnodes_self by auto
  next
    case initializer
    then have "ts_rewrite_children m nc = [Node ''BLOCK'' nc]"
      using ne by (simp add: ts_rewrite_children_def Let_def)
    then show ?thesis
      using assms(3) subnodes_self [of c] by auto
  next
    case literal
    then have "ts_rewrite_children m nc = [Node ''OBJECT_DECLARATION'' nc]"
      using ne by (simp add: ts_rewrite_children_def Let_def)
    then show ?thesis
      using assms(3) subnodes_self [of c] by auto
  next
    case wrap
    then have "ts_rewrite_children m nc = wrap_bare_types_in_value_parameter nc"
      by (simp add: ts_rewrite_children_def Let_def)
    moreover have "c \<in> set (wrap_bare_types_in_value_parameter nc)"
      using assms by (simp add: wrap_keeps)
    ultimately show ?thesis using subnodes_self by auto
  next
    case other
    then have "ts_rewrite_children m nc = nc"
      using assms(1,2) ne by (simp add: ts_rewrite_children_def Let_def)
    then show ?thesis
      using assms(3) subnodes_self [of c] by auto
  qed
qed


subsection \<open>Receiver unwrapping\<close>

text \<open>
  C8: for a node mapped to FUN or PROPERTY, every FUNCTION_TYPE_RECEIVER among its
  normalized children is replaced by its own children in the result, the other
  children staying as they are. A node mapped to FUNCTION_TYPE keeps its normalized
  children unchanged. For a node with any mapped name other than FUN and PROPERTY, or
  with none, every FUNCTION_TYPE_RECEIVER among its normalized children is still a node
  of the result, with its children below it.
\<close>

theorem receiver_unwrapped_under_fun_property_only:
  "(ts_to_psi_get (name node) = Some m \<and> (m = ''FUN'' \<or> m = ''PROPERTY'') \<longrightarrow>
      normalize_ts node =
        Some (Node m (concat (map (\<lambda>child. if name child = ''FUNCTION_TYPE_RECEIVER''
                                             then children child else [child])
                                  (ts_normalized_children node)))))
   \<and> (ts_to_psi_get (name node) = Some ''FUNCTION_TYPE'' \<longrightarrow>
      normalize_ts node = Some (Node ''FUNCTION_TYPE'' (ts_normalized_children node)))
   \<and> (ts_to_psi_get (name node) \<noteq> Some ''FUN'' \<and> ts_to_psi_get (name node) \<noteq> Some ''PROPERTY''
      \<and> normalize_ts node = Some r \<and> c \<in> set (ts_normalized_children node)
      \<and> name c = ''FUNCTION_TYPE_RECEIVER'' \<longrightarrow>
      c \<in> set (subnodes r))"
proof (intro conjI impI)
  assume h: "ts_to_psi_get (name node) = Some m \<and> (m = ''FUN'' \<or> m = ''PROPERTY'')"
  then have n: "name node \<notin> set SKIP_TS_NODES" "name node \<noteq> ''check_expression''"
    using mapped_fun_property [of "name node" m] by auto
  from n(2) have mn: "ts_mapped_name node m = m"
    by (simp add: ts_mapped_name_def)
  from h have "normalize_ts_node node = Some (Node m (unwrap_receiver_type (ts_normalized_children node)))"
    using normalize_ts_node_mapped [OF n(1), of m]
    by (auto simp: Let_def mn ts_rewrite_children_fun)
  then show "normalize_ts node =
        Some (Node m (concat (map (\<lambda>child. if name child = ''FUNCTION_TYPE_RECEIVER''
                                             then children child else [child])
                                  (ts_normalized_children node))))"
    by (simp add: normalize_ts_def unwrap_receiver_type_eq)
next
  assume h: "ts_to_psi_get (name node) = Some ''FUNCTION_TYPE''"
  then have n: "name node \<notin> set SKIP_TS_NODES" "name node \<noteq> ''check_expression''"
    using mapped_fun_property [of "name node" "''FUNCTION_TYPE''"] by auto
  from n(2) have mn: "ts_mapped_name node ''FUNCTION_TYPE'' = ''FUNCTION_TYPE''"
    by (simp add: ts_mapped_name_def)
  show "normalize_ts node = Some (Node ''FUNCTION_TYPE'' (ts_normalized_children node))"
    using normalize_ts_node_mapped [OF n(1) h]
    by (simp add: normalize_ts_def Let_def mn ts_rewrite_children_function_type)
next
  assume h: "ts_to_psi_get (name node) \<noteq> Some ''FUN'' \<and> ts_to_psi_get (name node) \<noteq> Some ''PROPERTY''
      \<and> normalize_ts node = Some r \<and> c \<in> set (ts_normalized_children node)
      \<and> name c = ''FUNCTION_TYPE_RECEIVER''"
  let ?nc = "ts_normalized_children node"
  from h have r: "normalize_ts_node node = Some r" and c: "c \<in> set ?nc"
    and ftr: "name c = ''FUNCTION_TYPE_RECEIVER''"
    by (simp_all add: normalize_ts_def)
  have one: "c = hd ?nc" if "length ?nc = 1"
    using that c by (rule single_hd)
  have top: "c \<in> set (subnodes (Node nm ?nc))" for nm
    using c subnodes_self [of c] by auto
  show "c \<in> set (subnodes r)"
  proof (cases "name node \<in> set SKIP_TS_NODES")
    case True
    from r show ?thesis
      unfolding normalize_ts_node_skip [OF True]
      using one top subnodes_self [of c]
      by (auto split: if_splits option.splits)
  next
    case False
    show ?thesis
    proof (cases "ts_to_psi_get (name node)")
      case None
      from r show ?thesis
        unfolding normalize_ts_node_unmapped [OF False None]
        using one top subnodes_self [of c]
        by (auto split: if_splits)
    next
      case (Some m0)
      let ?mn = "ts_mapped_name node m0"
      let ?nc7 = "ts_rewrite_children ?mn ?nc"
      from h Some have "m0 \<noteq> ''FUN''" "m0 \<noteq> ''PROPERTY''" by auto
      then have mn: "?mn \<noteq> ''FUN''" "?mn \<noteq> ''PROPERTY''"
        by (auto simp: ts_mapped_name_def)
      from ts_rewrite_keeps [OF mn c ftr]
      obtain d where d: "d \<in> set ?nc7" "c \<in> set (subnodes d)" by blast
      have one7: "d = hd ?nc7" if "length ?nc7 = 1"
        using that d(1) by (rule single_hd)
      have top7: "c \<in> set (subnodes (Node ?mn ?nc7))"
        using d by auto
      from r have "r = hd ?nc \<and> length ?nc = 1 \<or> r = hd ?nc7 \<and> length ?nc7 = 1
          \<or> r = Node ?mn ?nc7"
        unfolding normalize_ts_node_mapped [OF False Some] Let_def
        by (auto split: if_splits)
      then show ?thesis
        using one one7 top7 d(2) subnodes_self [of c] by auto
    qed
  qed
qed

theorem receiver_unwrapped_under_fun_property_only_witness:
  "ts_to_psi_get (name (Node ''function_declaration''
      [Node ''receiver_type'' [Node ''user_type'' [Node ''type_identifier'' []]]])) = Some ''FUN''
   \<and> ts_normalized_children (Node ''function_declaration''
      [Node ''receiver_type'' [Node ''user_type'' [Node ''type_identifier'' []]]]) =
      [Node ''FUNCTION_TYPE_RECEIVER'' [Node ''USER_TYPE'' []]]
   \<and> normalize_ts (Node ''function_declaration''
      [Node ''receiver_type'' [Node ''user_type'' [Node ''type_identifier'' []]]]) =
      Some (Node ''FUN'' [Node ''USER_TYPE'' []])
   \<and> ts_to_psi_get (name (Node ''function_type''
      [Node ''receiver_type'' [Node ''user_type'' [Node ''type_identifier'' []]],
       Node ''user_type'' [Node ''type_identifier'' []]])) = Some ''FUNCTION_TYPE''
   \<and> normalize_ts (Node ''function_type''
      [Node ''receiver_type'' [Node ''user_type'' [Node ''type_identifier'' []]],
       Node ''user_type'' [Node ''type_identifier'' []]]) =
      Some (Node ''FUNCTION_TYPE''
        [Node ''FUNCTION_TYPE_RECEIVER'' [Node ''USER_TYPE'' []], Node ''USER_TYPE'' []])
   \<and> Node ''FUNCTION_TYPE_RECEIVER'' [Node ''USER_TYPE'' []]
      \<in> set (subnodes (Node ''CLASS_INITIALIZER''
          [Node ''BLOCK'' [Node ''FUNCTION_TYPE_RECEIVER'' [Node ''USER_TYPE'' []]]]))"
proof -
  let ?u = "Node ''user_type'' [Node ''type_identifier'' []]"
  let ?f = "Node ''function_declaration'' [Node ''receiver_type'' [?u]]"
  let ?t = "Node ''function_type'' [Node ''receiver_type'' [?u], ?u]"
  let ?i = "Node ''anonymous_initializer'' [Node ''receiver_type'' [?u]]"
  let ?w = "Node ''FUNCTION_TYPE_RECEIVER'' [Node ''USER_TYPE'' []]"
  have f1: "ts_to_psi_get (name ?f) = Some ''FUN''" by code_simp
  have f2: "ts_normalized_children ?f = [?w]" by code_simp
  have t1: "ts_to_psi_get (name ?t) = Some ''FUNCTION_TYPE''" by code_simp
  have t2: "ts_normalized_children ?t = [?w, Node ''USER_TYPE'' []]" by code_simp
  have i1: "ts_to_psi_get (name ?i) \<noteq> Some ''FUN''" by code_simp
  have i2: "ts_to_psi_get (name ?i) \<noteq> Some ''PROPERTY''" by code_simp
  have i3: "normalize_ts ?i = Some (Node ''CLASS_INITIALIZER'' [Node ''BLOCK'' [?w]])"
    by code_simp
  have i4: "ts_normalized_children ?i = [?w]" by code_simp
  from receiver_unwrapped_under_fun_property_only [where node = ?f and m = "''FUN''"] f1
  have "normalize_ts ?f =
      Some (Node ''FUN'' (concat (map (\<lambda>child. if name child = ''FUNCTION_TYPE_RECEIVER''
         then children child else [child]) (ts_normalized_children ?f))))"
    by blast
  then have r1: "normalize_ts ?f = Some (Node ''FUN'' [Node ''USER_TYPE'' []])"
    by (simp add: f2)
  from receiver_unwrapped_under_fun_property_only [where node = ?t] t1
  have "normalize_ts ?t = Some (Node ''FUNCTION_TYPE'' (ts_normalized_children ?t))"
    by blast
  then have r2: "normalize_ts ?t = Some (Node ''FUNCTION_TYPE'' [?w, Node ''USER_TYPE'' []])"
    by (simp only: t2)
  have i5: "?w \<in> set (ts_normalized_children ?i)" by (simp only: i4) simp
  have i6: "name ?w = ''FUNCTION_TYPE_RECEIVER''" by simp
  from receiver_unwrapped_under_fun_property_only
    [where node = ?i and r = "Node ''CLASS_INITIALIZER'' [Node ''BLOCK'' [?w]]" and c = ?w]
    i1 i2 i3 i5 i6
  have r3: "?w \<in> set (subnodes (Node ''CLASS_INITIALIZER'' [Node ''BLOCK'' [?w]]))"
    by blast
  from f1 f2 r1 t1 r2 r3 show ?thesis by blast
qed

end
